theory Spec2Isabelle
  imports Complex_Main
begin

section \<open>JavaScript numbers\<close>

text \<open>
  The pipeline computes on JavaScript \<^verbatim>\<open>number\<close>s. A number is modelled as a finite
  real or one of the three special values of IEEE 754. Arithmetic on finite values
  is exact real arithmetic: rounding, overflow to infinity and the sign of zero are
  not modelled (every divisor of the modelled code that can be zero is a
  non-negative zero). \<^verbatim>\<open>Math.PI\<close> is \<open>pi\<close>. What the model keeps is where the code
  produces \<^verbatim>\<open>NaN\<close> and the infinities: JavaScript division never raises.
\<close>

datatype jsnum = Fin real | PInf | NInf | NaN

fun inf_of_sign :: "real \<Rightarrow> jsnum" where
  "inf_of_sign s = (if s = 0 then NaN else if 0 < s then PInf else NInf)"

fun js_sgn :: "jsnum \<Rightarrow> real" where
  "js_sgn (Fin x) = sgn x"
| "js_sgn PInf = 1"
| "js_sgn NInf = - 1"
| "js_sgn NaN = 0"

fun js_add :: "jsnum \<Rightarrow> jsnum \<Rightarrow> jsnum" where
  "js_add (Fin x) (Fin y) = Fin (x + y)"
| "js_add NaN _ = NaN"
| "js_add _ NaN = NaN"
| "js_add PInf NInf = NaN"
| "js_add NInf PInf = NaN"
| "js_add PInf _ = PInf"
| "js_add _ PInf = PInf"
| "js_add NInf _ = NInf"
| "js_add _ NInf = NInf"

fun js_neg :: "jsnum \<Rightarrow> jsnum" where
  "js_neg (Fin x) = Fin (- x)"
| "js_neg PInf = NInf"
| "js_neg NInf = PInf"
| "js_neg NaN = NaN"

definition js_sub :: "jsnum \<Rightarrow> jsnum \<Rightarrow> jsnum" where
  "js_sub a b = js_add a (js_neg b)"

fun js_mul :: "jsnum \<Rightarrow> jsnum \<Rightarrow> jsnum" where
  "js_mul (Fin x) (Fin y) = Fin (x * y)"
| "js_mul NaN _ = NaN"
| "js_mul _ NaN = NaN"
| "js_mul a b = inf_of_sign (js_sgn a * js_sgn b)"

fun js_div :: "jsnum \<Rightarrow> jsnum \<Rightarrow> jsnum" where
  "js_div (Fin x) (Fin y) = (if y = 0 then inf_of_sign (sgn x) else Fin (x / y))"
| "js_div NaN _ = NaN"
| "js_div _ NaN = NaN"
| "js_div (Fin x) _ = Fin 0"
| "js_div a (Fin y) = inf_of_sign (js_sgn a * (if y < 0 then - 1 else 1))"
| "js_div _ _ = NaN"

text \<open>The comparison operators \<^verbatim>\<open><\<close>, \<^verbatim>\<open><=\<close> and \<^verbatim>\<open>>=\<close>: false as soon as one side is NaN.\<close>

fun js_lt :: "jsnum \<Rightarrow> jsnum \<Rightarrow> bool" where
  "js_lt NaN _ = False"
| "js_lt _ NaN = False"
| "js_lt (Fin x) (Fin y) = (x < y)"
| "js_lt NInf NInf = False"
| "js_lt NInf _ = True"
| "js_lt _ NInf = False"
| "js_lt PInf _ = False"
| "js_lt _ PInf = True"

definition js_le :: "jsnum \<Rightarrow> jsnum \<Rightarrow> bool" where
  "js_le a b = (a \<noteq> NaN \<and> b \<noteq> NaN \<and> (a = b \<or> js_lt a b))"

definition js_ge :: "jsnum \<Rightarrow> jsnum \<Rightarrow> bool" where
  "js_ge a b = js_le b a"

subsection \<open>The Math functions the code calls\<close>

fun Math_abs :: "jsnum \<Rightarrow> jsnum" where
  "Math_abs (Fin x) = Fin \<bar>x\<bar>"
| "Math_abs PInf = PInf"
| "Math_abs NInf = PInf"
| "Math_abs NaN = NaN"

fun Math_floor :: "jsnum \<Rightarrow> jsnum" where
  "Math_floor (Fin x) = Fin (of_int \<lfloor>x\<rfloor>)"
| "Math_floor a = a"

fun Math_sqrt :: "jsnum \<Rightarrow> jsnum" where
  "Math_sqrt (Fin x) = (if x < 0 then NaN else Fin (sqrt x))"
| "Math_sqrt PInf = PInf"
| "Math_sqrt _ = NaN"

text \<open>\<^verbatim>\<open>Math.pow(v, 2)\<close>, the only exponent the code uses.\<close>

fun Math_pow2 :: "jsnum \<Rightarrow> jsnum" where
  "Math_pow2 (Fin x) = Fin (x\<^sup>2)"
| "Math_pow2 NaN = NaN"
| "Math_pow2 _ = PInf"

fun Math_cos :: "jsnum \<Rightarrow> jsnum" where
  "Math_cos (Fin x) = Fin (cos x)"
| "Math_cos _ = NaN"

fun Math_sin :: "jsnum \<Rightarrow> jsnum" where
  "Math_sin (Fin x) = Fin (sin x)"
| "Math_sin _ = NaN"

fun Math_log10 :: "jsnum \<Rightarrow> jsnum" where
  "Math_log10 (Fin x) = (if x < 0 then NaN else if x = 0 then NInf else Fin (log 10 x))"
| "Math_log10 PInf = PInf"
| "Math_log10 _ = NaN"

text \<open>
  \<^verbatim>\<open>Math.max(...xs)\<close> and \<^verbatim>\<open>Math.min(...xs)\<close>: NaN as soon as one argument is NaN,
  \<open>-Infinity\<close> (resp. \<open>+Infinity\<close>) on no argument.
\<close>

definition js_max2 :: "jsnum \<Rightarrow> jsnum \<Rightarrow> jsnum" where
  "js_max2 a b = (if a = NaN \<or> b = NaN then NaN else if js_lt a b then b else a)"

definition js_min2 :: "jsnum \<Rightarrow> jsnum \<Rightarrow> jsnum" where
  "js_min2 a b = (if a = NaN \<or> b = NaN then NaN else if js_lt b a then b else a)"

definition Math_max :: "jsnum list \<Rightarrow> jsnum" where
  "Math_max xs = fold (\<lambda>x m. js_max2 m x) xs NInf"

definition Math_min :: "jsnum list \<Rightarrow> jsnum" where
  "Math_min xs = fold (\<lambda>x m. js_min2 m x) xs PInf"

text \<open>\<^verbatim>\<open>data.reduce((sum, val) => sum + val, 0)\<close>.\<close>

definition reduce_sum :: "jsnum list \<Rightarrow> jsnum" where
  "reduce_sum data = fold (\<lambda>val sum. js_add sum val) data (Fin 0)"

section \<open>Signal conditioning (lib/preprocessing.ts)\<close>

text \<open>
  The sampling rate is a finite number (the data model has it positive), so it is a
  real. Indices are integers.
\<close>

subsection \<open>bandpassFilter\<close>

text \<open>
  The half window \<^verbatim>\<open>Math.floor(windowSize / 2)\<close> with
  \<^verbatim>\<open>windowSize = Math.floor(sfreq / 10)\<close>, and the bounds \<^verbatim>\<open>start\<close> and \<^verbatim>\<open>end\<close> of the
  averaging window at output index \<open>i\<close> of a buffer of \<open>n\<close> samples.
\<close>

definition halfWindow :: "real \<Rightarrow> int" where
  "halfWindow sfreq = \<lfloor>sfreq / 10\<rfloor> div 2"

definition bp_start :: "real \<Rightarrow> nat \<Rightarrow> int" where
  "bp_start sfreq i = max 0 (int i - halfWindow sfreq)"

definition bp_end :: "nat \<Rightarrow> real \<Rightarrow> nat \<Rightarrow> int" where
  "bp_end n sfreq i = min (int n) (int i + halfWindow sfreq)"

text \<open>
  The inner loop \<^verbatim>\<open>for (let j = start; j < end; j++) sum += data[j]\<close>. The bounds keep
  \<open>0 \<le> start\<close> and \<open>end \<le> length data\<close>, so every read is in range.
\<close>

definition bp_sum :: "jsnum list \<Rightarrow> int \<Rightarrow> int \<Rightarrow> jsnum" where
  "bp_sum data start endx = fold (\<lambda>j sum. js_add sum (data ! j)) [nat start..<nat endx] (Fin 0)"

text \<open>
  The outer loop writes \<^verbatim>\<open>filtered[i]\<close> for \<open>i = 0, 1, ...\<close> in order into an array that
  starts empty: the result is the list of the values written. The two cutoff
  arguments are accepted and never read.
\<close>

definition bandpassFilter :: "jsnum list \<Rightarrow> real \<Rightarrow> real \<Rightarrow> real \<Rightarrow> jsnum list" where
  "bandpassFilter data sfreq lowCutoff highCutoff =
     map (\<lambda>i. let start = bp_start sfreq i;
                   endx = bp_end (length data) sfreq i;
                   sum = bp_sum data start endx
               in js_div sum (Fin (of_int (endx - start))))
         [0..<length data]"

subsection \<open>removeDCOffset, normalize, preprocess\<close>

definition mean_of :: "jsnum list \<Rightarrow> jsnum" where
  "mean_of data = js_div (reduce_sum data) (Fin (real (length data)))"

definition removeDCOffset :: "jsnum list \<Rightarrow> jsnum list" where
  "removeDCOffset data = (let mean = mean_of data in map (\<lambda>val. js_sub val mean) data)"

definition normalize :: "jsnum list \<Rightarrow> jsnum list" where
  "normalize data = (let mx = Math_max (map Math_abs data) in map (\<lambda>val. js_div val mx) data)"

text \<open>
  The optional configuration; \<^verbatim>\<open>config.lowCutoff || 1\<close> takes the default when the field
  is missing or zero.
\<close>

record config =
  lowCutoff :: "real option"
  highCutoff :: "real option"

definition or_default :: "real option \<Rightarrow> real \<Rightarrow> real" where
  "or_default v d = (case v of None \<Rightarrow> d | Some x \<Rightarrow> if x = 0 then d else x)"

definition preprocess :: "jsnum list \<Rightarrow> real \<Rightarrow> config \<Rightarrow> jsnum list" where
  "preprocess data sfreq cfg =
     (let processed = removeDCOffset data;
          processed = bandpassFilter processed sfreq
                        (or_default (lowCutoff cfg) 1) (or_default (highCutoff cfg) 50);
          processed = normalize processed
      in processed)"

section \<open>Spectrogram (lib/spectrogram.ts)\<close>

text \<open>
  The one failure the generator can meet is the runtime's \<^verbatim>\<open>RangeError\<close>
  ("Invalid array length"), raised by \<^verbatim>\<open>Array(n)\<close> and \<^verbatim>\<open>Array.from\<close>. The code has
  no error class of its own and no \<^verbatim>\<open>throw\<close>.
\<close>

datatype js_error = RangeError

text \<open>
  The fields of \<^verbatim>\<open>SpectrogramData\<close>; \<^verbatim>\<open>times\<close> and \<^verbatim>\<open>power\<close> are names of HOL, so the
  fields are \<open>times_axis\<close> and \<open>power_matrix\<close>.
\<close>

record SpectrogramData =
  frequencies :: "jsnum list"
  times_axis :: "jsnum list"
  power_matrix :: "jsnum list list"

text \<open>
  \<^verbatim>\<open>Array.from({ length: n }, (_, i) => f(i))\<close>: the length goes through ToLength
  (NaN and everything below zero give 0, the top is \<open>2^53 - 1\<close>) and the new array is
  refused above \<open>2^32 - 1\<close> elements.
\<close>

definition ToLength :: "jsnum \<Rightarrow> nat" where
  "ToLength n = (case n of Fin x \<Rightarrow> min (nat \<lfloor>x\<rfloor>) (2 ^ 53 - 1) | PInf \<Rightarrow> 2 ^ 53 - 1 | _ \<Rightarrow> 0)"

definition Array_from :: "jsnum \<Rightarrow> (nat \<Rightarrow> 'a) \<Rightarrow> js_error + 'a list" where
  "Array_from n f =
     (let len = ToLength n in if 2 ^ 32 - 1 < len then Inl RangeError else Inr (map f [0..<len]))"

text \<open>
  \<^verbatim>\<open>Array(n)\<close> with a number: the length of the new array, or RangeError unless \<open>n\<close> is
  an integer between 0 and \<open>2^32 - 1\<close>.
\<close>

definition Array_len :: "jsnum \<Rightarrow> js_error + nat" where
  "Array_len n =
     (case n of
        Fin x \<Rightarrow> if 0 \<le> x \<and> x \<le> 2 ^ 32 - 1 \<and> of_int \<lfloor>x\<rfloor> = x then Inr (nat \<lfloor>x\<rfloor>)
                 else Inl RangeError
      | _ \<Rightarrow> Inl RangeError)"

text \<open>\<^verbatim>\<open>data.slice(start, end)\<close>: a negative bound counts from the end of the array.\<close>

definition js_slice :: "'a list \<Rightarrow> int \<Rightarrow> int \<Rightarrow> 'a list" where
  "js_slice xs start endx =
     (let n = int (length xs);
          k = (if start < 0 then max (n + start) 0 else min start n);
          final = (if endx < 0 then max (n + endx) 0 else min endx n)
      in take (nat (final - k)) (drop (nat k) xs))"

definition hopSize_of :: "nat \<Rightarrow> real \<Rightarrow> int" where
  "hopSize_of windowSize overlap = \<lfloor>real windowSize * (1 - overlap)\<rfloor>"

definition numWindows_of :: "nat \<Rightarrow> nat \<Rightarrow> int \<Rightarrow> jsnum" where
  "numWindows_of len windowSize hopSize =
     js_add (Math_floor (js_div (Fin (real len - real windowSize)) (Fin (of_int hopSize)))) (Fin 1)"

definition freqBins_of :: "nat \<Rightarrow> nat" where
  "freqBins_of windowSize = windowSize div 2 + 1"

text \<open>The Hann factor \<^verbatim>\<open>0.5 - 0.5 * Math.cos((2 * Math.PI * i) / (windowSize - 1))\<close>.\<close>

definition hann :: "nat \<Rightarrow> nat \<Rightarrow> jsnum" where
  "hann windowSize i =
     js_sub (Fin (1 / 2))
       (js_mul (Fin (1 / 2))
          (Math_cos (js_div (Fin (2 * pi * real i)) (Fin (real windowSize - 1)))))"

definition apply_hann :: "jsnum list \<Rightarrow> nat \<Rightarrow> jsnum list" where
  "apply_hann windowData windowSize =
     map (\<lambda>(val, i). js_mul val (hann windowSize i)) (zip windowData [0..<length windowData])"

text \<open>The direct DFT sums \<^verbatim>\<open>real\<close> and \<^verbatim>\<open>imag\<close> of one frequency bin.\<close>

definition dft_bin :: "jsnum list \<Rightarrow> nat \<Rightarrow> nat \<Rightarrow> jsnum \<times> jsnum" where
  "dft_bin windowed windowSize freqIdx =
     fold (\<lambda>n (re, im).
             let angle = js_div (Fin (- 2 * pi * real freqIdx * real n)) (Fin (real windowSize))
             in (js_add re (js_mul (windowed ! n) (Math_cos angle)),
                 js_add im (js_mul (windowed ! n) (Math_sin angle))))
          [0..<length windowed] (Fin 0, Fin 0)"

definition log_power :: "jsnum \<times> jsnum \<Rightarrow> jsnum" where
  "log_power c =
     (case c of (re, im) \<Rightarrow>
        Math_log10 (js_add (js_add (js_mul re re) (js_mul im im)) (Fin (1 / 10 ^ 10))))"

text \<open>
  \<^verbatim>\<open>power[freqIdx][windowIdx] = v\<close>. The rows are distinct arrays (each made by its own
  \<^verbatim>\<open>Array(numWindows).fill(0)\<close>), and both indices are in range wherever the code writes.
\<close>

definition set2d :: "'a list list \<Rightarrow> nat \<Rightarrow> nat \<Rightarrow> 'a \<Rightarrow> 'a list list" where
  "set2d m r c v = m[r := (m ! r)[c := v]]"

text \<open>The loop over \<^verbatim>\<open>freqIdx\<close> for one window, and the loop over \<^verbatim>\<open>windowIdx\<close>.\<close>

definition stft_column ::
  "jsnum list \<Rightarrow> nat \<Rightarrow> nat \<Rightarrow> nat \<Rightarrow> jsnum list list \<Rightarrow> jsnum list list" where
  "stft_column windowed windowSize freqBins windowIdx pw =
     fold (\<lambda>freqIdx pw. set2d pw freqIdx windowIdx (log_power (dft_bin windowed windowSize freqIdx)))
          [0..<freqBins] pw"

definition window_at :: "jsnum list \<Rightarrow> nat \<Rightarrow> int \<Rightarrow> nat \<Rightarrow> jsnum list" where
  "window_at data windowSize hopSize windowIdx =
     (let start = int windowIdx * hopSize;
          windowData = js_slice data start (start + int windowSize)
      in apply_hann windowData windowSize)"

definition stft_loop ::
  "jsnum list \<Rightarrow> nat \<Rightarrow> int \<Rightarrow> nat \<Rightarrow> nat \<Rightarrow> jsnum list list \<Rightarrow> jsnum list list" where
  "stft_loop data windowSize hopSize freqBins numWindows pw =
     fold (\<lambda>windowIdx pw.
             stft_column (window_at data windowSize hopSize windowIdx) windowSize freqBins windowIdx pw)
          [0..<numWindows] pw"

text \<open>
  \<^verbatim>\<open>generateSpectrogram(data, sfreq, windowSize, overlap)\<close>. The window size is a
  non-negative integer. The three arrays are built in the order of the source, so the
  first invalid length decides the error.
\<close>

definition generateSpectrogram ::
  "jsnum list \<Rightarrow> real \<Rightarrow> nat \<Rightarrow> real \<Rightarrow> js_error + SpectrogramData" where
  "generateSpectrogram data sfreq windowSize overlap =
     (let hopSize = hopSize_of windowSize overlap;
          numWindows = numWindows_of (length data) windowSize hopSize;
          freqBins = freqBins_of windowSize
      in case Array_from (Fin (real freqBins))
                (\<lambda>i. js_div (Fin (real i * sfreq)) (Fin (real windowSize))) of
           Inl e \<Rightarrow> Inl e
         | Inr fs \<Rightarrow>
            (case Array_from numWindows
                    (\<lambda>i. js_div (Fin (real i * of_int hopSize)) (Fin sfreq)) of
               Inl e \<Rightarrow> Inl e
             | Inr ts \<Rightarrow>
                (case Array_len numWindows of
                   Inl e \<Rightarrow> Inl e
                 | Inr nW \<Rightarrow>
                     Inr \<lparr>frequencies = fs, times_axis = ts,
                          power_matrix =
                            stft_loop data windowSize hopSize freqBins nW
                              (replicate freqBins (replicate nW (Fin 0)))\<rparr>)))"

section \<open>Band powers (hooks/use-spectrogram.ts)\<close>

definition bandIndices :: "jsnum list \<Rightarrow> jsnum \<Rightarrow> jsnum \<Rightarrow> nat list" where
  "bandIndices fs minFreq maxFreq =
     map snd (filter (\<lambda>(freq, idx). js_ge freq minFreq \<and> js_le freq maxFreq)
                     (zip fs [0..<length fs]))"

definition bandPowers :: "jsnum list \<Rightarrow> jsnum list list \<Rightarrow> jsnum \<Rightarrow> jsnum \<Rightarrow> jsnum list" where
  "bandPowers fs pw minFreq maxFreq =
     concat (map fst (filter (\<lambda>(row, freqIdx). freqIdx \<in> set (bandIndices fs minFreq maxFreq))
                             (zip pw [0..<length pw])))"

definition getBandPower :: "jsnum list \<Rightarrow> jsnum list list \<Rightarrow> jsnum \<Rightarrow> jsnum \<Rightarrow> jsnum" where
  "getBandPower fs pw minFreq maxFreq =
     (if length (bandIndices fs minFreq maxFreq) = 0 then Fin 0
      else let bp = bandPowers fs pw minFreq maxFreq
           in js_div (reduce_sum bp) (Fin (real (length bp))))"

record BandPowers =
  delta :: jsnum
  theta :: jsnum
  alpha :: jsnum
  beta :: jsnum
  gamma :: jsnum

definition frequencyBands :: "SpectrogramData \<Rightarrow> BandPowers" where
  "frequencyBands sp =
     \<lparr>delta = getBandPower (frequencies sp) (power_matrix sp) (Fin (1 / 2)) (Fin 4),
      theta = getBandPower (frequencies sp) (power_matrix sp) (Fin 4) (Fin 8),
      alpha = getBandPower (frequencies sp) (power_matrix sp) (Fin 8) (Fin 13),
      beta = getBandPower (frequencies sp) (power_matrix sp) (Fin 13) (Fin 30),
      gamma = getBandPower (frequencies sp) (power_matrix sp) (Fin 30) (Fin 100)\<rparr>"

section \<open>Feature extraction (lib/onnx-inference.ts)\<close>

text \<open>
  \<^verbatim>\<open>prepareInput\<close> fills a \<^verbatim>\<open>Float32Array(128)\<close>. A store into it rounds the number to
  single precision; since rounding is not modelled, the rounding of a store is the
  parameter \<open>fround\<close> (\<^verbatim>\<open>Math.fround\<close>), and every statement holds for whatever it is.
\<close>

definition variance_of :: "jsnum list \<Rightarrow> jsnum \<Rightarrow> jsnum" where
  "variance_of data mean =
     js_div (fold (\<lambda>val sum. js_add sum (Math_pow2 (js_sub val mean))) data (Fin 0))
            (Fin (real (length data)))"

text \<open>The inner loop of the frequency features, with the literal 250 of the source.\<close>

definition freq_of :: "nat \<Rightarrow> real" where
  "freq_of i = ((real i - 6) / 58) * 50"

definition freq_power :: "jsnum list \<Rightarrow> nat \<Rightarrow> jsnum" where
  "freq_power data i =
     fold (\<lambda>j p. js_add p (js_mul (Math_cos (js_div (Fin (2 * pi * freq_of i * real j)) (Fin 250)))
                                   (data ! j)))
          [0..<length data] (Fin 0)"

text \<open>The window of the time features: \<^verbatim>\<open>windowStart\<close>, \<^verbatim>\<open>windowEnd\<close> and the mean.\<close>

definition windowStart :: "nat \<Rightarrow> nat \<Rightarrow> int" where
  "windowStart n i = \<lfloor>((real i - 64) / 64) * real n\<rfloor>"

definition windowEnd :: "nat \<Rightarrow> nat \<Rightarrow> int" where
  "windowEnd n i = min (windowStart n i + int (n div 64)) (int n)"

definition window_mean :: "jsnum list \<Rightarrow> nat \<Rightarrow> jsnum" where
  "window_mean data i =
     (let ws = windowStart (length data) i;
          we = windowEnd (length data) i;
          windowMean = fold (\<lambda>j m. js_add m (data ! j)) [nat ws..<nat we] (Fin 0)
      in js_div windowMean (Fin (of_int (we - ws))))"

definition prepareInput :: "(jsnum \<Rightarrow> jsnum) \<Rightarrow> jsnum list \<Rightarrow> jsnum list" where
  "prepareInput fround data =
     (let features = replicate 128 (Fin 0);
          mean = js_div (reduce_sum data) (Fin (real (length data)));
          variance = variance_of data mean;
          std = Math_sqrt variance;
          mn = Math_min data;
          mx = Math_max data;
          range = js_sub mx mn;
          features = features[0 := fround mean];
          features = features[1 := fround std];
          features = features[2 := fround variance];
          features = features[3 := fround mn];
          features = features[4 := fround mx];
          features = features[5 := fround range];
          features = fold (\<lambda>i fs. fs[i := fround (js_div (freq_power data i)
                                                        (Fin (real (length data))))])
                          [6..<64] features;
          features = fold (\<lambda>i fs. fs[i := fround (window_mean data i)]) [64..<128] features
      in features)"

text \<open>
  \<^verbatim>\<open>predict(eegData)\<close> computes its features as \<^verbatim>\<open>this.prepareInput(eegData.data)\<close>; the
  classification that follows is not part of the model. The fields \<^verbatim>\<open>data\<close> and
  \<^verbatim>\<open>sfreq\<close> of \<^verbatim>\<open>EEGData\<close> carry the prefix \<open>eeg_\<close>.
\<close>

record EEGData =
  eeg_data :: "jsnum list"
  eeg_sfreq :: real
  channel_name :: string
  duration :: "real option"

definition predict_features :: "(jsnum \<Rightarrow> jsnum) \<Rightarrow> EEGData \<Rightarrow> jsnum list" where
  "predict_features fround eegData = prepareInput fround (eeg_data eegData)"



section \<open>Reference formulas\<close>

text \<open>The moving average of the samples \<open>rs\<close> at index \<open>i\<close>, over the reals.\<close>

definition smooth_at :: "real list \<Rightarrow> real \<Rightarrow> nat \<Rightarrow> real" where
  "smooth_at rs sfreq i =
     sum ((!) rs) {nat (bp_start sfreq i)..<nat (bp_end (length rs) sfreq i)}
       / real_of_int (bp_end (length rs) sfreq i - bp_start sfreq i)"



definition cos_correlation :: "real list \<Rightarrow> nat \<Rightarrow> real" where
  "cos_correlation xs i =
     (\<Sum>j = 0..<length xs. cos (2 * pi * (((real i - 6) / 58) * 50) * real j / 250) * xs ! j)"

text \<open>
  The window of the time feature \<open>64 + k\<close> starts at \<open>floor (k * n / 64)\<close> and has
  \<open>floor (n / 64)\<close> samples; \<open>window_average\<close> is the mean over it.
\<close>

definition win_start :: "nat \<Rightarrow> nat \<Rightarrow> nat" where
  "win_start n k = k * n div 64"

definition window_average :: "real list \<Rightarrow> nat \<Rightarrow> real" where
  "window_average xs k =
     (\<Sum>j = win_start (length xs) k..<win_start (length xs) k + length xs div 64. xs ! j)
       / real (length xs div 64)"

text \<open>
  The window average as the specification words it: window \<open>k\<close> covers the indices from
  \<open>k * floor (n / 64)\<close> up to \<open>(k + 1) * floor (n / 64)\<close>.
\<close>

definition claimed_window_average :: "real list \<Rightarrow> nat \<Rightarrow> real" where
  "claimed_window_average xs k =
     (\<Sum>j = k * (length xs div 64)..<(k + 1) * (length xs div 64). xs ! j)
       / real (length xs div 64)"

text \<open>
  The Hann factor over the reals, sample \<open>n\<close> of window \<open>w\<close> after tapering, and the two
  sums of the discrete Fourier coefficient of bin \<open>k\<close>.
\<close>

definition hann_real :: "nat \<Rightarrow> nat \<Rightarrow> real" where
  "hann_real windowSize i = 1 / 2 - 1 / 2 * cos (2 * pi * real i / (real windowSize - 1))"

definition windowed_sample :: "real list \<Rightarrow> nat \<Rightarrow> nat \<Rightarrow> nat \<Rightarrow> nat \<Rightarrow> real" where
  "windowed_sample xs windowSize hop w n = xs ! (w * hop + n) * hann_real windowSize n"

definition dft_real :: "real list \<Rightarrow> nat \<Rightarrow> nat \<Rightarrow> nat \<Rightarrow> nat \<Rightarrow> real" where
  "dft_real xs windowSize hop w k =
     (\<Sum>n = 0..<windowSize. windowed_sample xs windowSize hop w n
                               * cos (- 2 * pi * real k * real n / real windowSize))"

definition dft_imag :: "real list \<Rightarrow> nat \<Rightarrow> nat \<Rightarrow> nat \<Rightarrow> nat \<Rightarrow> real" where
  "dft_imag xs windowSize hop w k =
     (\<Sum>n = 0..<windowSize. windowed_sample xs windowSize hop w n
                               * sin (- 2 * pi * real k * real n / real windowSize))"

text \<open>
  The bins of a band (the indices whose frequency lies in \<open>[lo, hi]\<close>), the power values
  of their rows in one list, and the band average: 0 for a band without bins, NaN for
  bins without values.
\<close>

definition band_bins :: "real list \<Rightarrow> real \<Rightarrow> real \<Rightarrow> nat list" where
  "band_bins fr lo hi = filter (\<lambda>i. lo \<le> fr ! i \<and> fr ! i \<le> hi) [0..<length fr]"

definition band_values :: "real list \<Rightarrow> real list list \<Rightarrow> real \<Rightarrow> real \<Rightarrow> real list" where
  "band_values fr pr lo hi = concat (map (\<lambda>i. pr ! i) (band_bins fr lo hi))"

definition band_average :: "real list \<Rightarrow> real list list \<Rightarrow> real \<Rightarrow> real \<Rightarrow> jsnum" where
  "band_average fr pr lo hi =
     (if band_bins fr lo hi = [] then Fin 0
      else if band_values fr pr lo hi = [] then NaN
      else Fin (sum_list (band_values fr pr lo hi) / real (length (band_values fr pr lo hi))))"

section \<open>Properties of the signal conditioner\<close>

subsection \<open>The window of the moving average\<close>

lemma halfWindow_small: "0 \<le> sfreq \<Longrightarrow> sfreq < 20 \<Longrightarrow> halfWindow sfreq = 0"
proof -
  assume a: "0 \<le> sfreq" "sfreq < 20"
  have "0 \<le> \<lfloor>sfreq / 10\<rfloor>" using a by simp
  moreover have "\<lfloor>sfreq / 10\<rfloor> < 2" using a by (simp add: floor_less_iff)
  ultimately show ?thesis unfolding halfWindow_def by simp
qed

lemma halfWindow_large: "20 \<le> sfreq \<Longrightarrow> 1 \<le> halfWindow sfreq"
proof -
  assume a: "20 \<le> sfreq"
  have "2 \<le> \<lfloor>sfreq / 10\<rfloor>" using a by (simp add: le_floor_iff)
  then show ?thesis unfolding halfWindow_def by linarith
qed

lemma floor_ge2_iff: "0 \<le> (sfreq::real) \<Longrightarrow> (2 \<le> \<lfloor>sfreq / 10\<rfloor>) = (20 \<le> sfreq)"
  by (simp add: le_floor_iff)

lemma bp_divisor_zero: "halfWindow sfreq = 0 \<Longrightarrow> i < n \<Longrightarrow> bp_start sfreq i = int i \<and> bp_end n sfreq i = int i"
  by (simp add: bp_start_def bp_end_def)

lemma bp_divisor_pos: "1 \<le> halfWindow sfreq \<Longrightarrow> i < n \<Longrightarrow> 0 < bp_end n sfreq i - bp_start sfreq i"
  by (simp add: bp_start_def bp_end_def)

lemma bp_bounds: "0 \<le> bp_start sfreq i" "bp_end n sfreq i \<le> int n"
  by (simp_all add: bp_start_def bp_end_def)

lemma length_bandpassFilter: "length (bandpassFilter data sfreq lo hi) = length data"
  by (simp add: bandpassFilter_def)

lemma nth_bandpassFilter:
  "i < length data \<Longrightarrow> bandpassFilter data sfreq lo hi ! i =
     js_div (bp_sum data (bp_start sfreq i) (bp_end (length data) sfreq i))
            (Fin (of_int (bp_end (length data) sfreq i - bp_start sfreq i)))"
  by (simp add: bandpassFilter_def Let_def)

lemma bp_sum_empty: "endx \<le> start \<Longrightarrow> 0 \<le> start \<Longrightarrow> bp_sum data start endx = Fin 0"
  by (simp add: bp_sum_def)

text \<open>
  Claim C10. For a sampling rate in \<open>[0, 20)\<close> the half window is 0: at every output index
  the averaging window is empty (\<open>start = end = i\<close>), the divisor \<open>end - start\<close> is 0 and
  the division \<open>0 / 0\<close> yields NaN. From 20 on every divisor is positive. So, on a
  non-empty buffer, all divisors are non-zero exactly when \<open>floor (sfreq / 10) \<ge> 2\<close>.
\<close>

theorem bandpass_divisor:
  assumes "0 \<le> sfreq"
  shows "(sfreq < 20 \<longrightarrow> halfWindow sfreq = 0 \<and>
            (\<forall>i<length data. bp_start sfreq i = int i \<and> bp_end (length data) sfreq i = int i \<and>
               bp_end (length data) sfreq i - bp_start sfreq i = 0 \<and>
               bandpassFilter data sfreq lo hi ! i = NaN))
       \<and> (20 \<le> sfreq \<longrightarrow> (\<forall>i<length data. 0 < bp_end (length data) sfreq i - bp_start sfreq i))
       \<and> (data \<noteq> [] \<longrightarrow>
            ((\<forall>i<length data. bp_end (length data) sfreq i - bp_start sfreq i \<noteq> 0) \<longleftrightarrow> 2 \<le> \<lfloor>sfreq / 10\<rfloor>))"
proof (intro conjI impI)
  assume lt: "sfreq < 20"
  show h0: "halfWindow sfreq = 0" using assms lt by (rule halfWindow_small)
  show "\<forall>i<length data. bp_start sfreq i = int i \<and> bp_end (length data) sfreq i = int i \<and>
               bp_end (length data) sfreq i - bp_start sfreq i = 0 \<and>
               bandpassFilter data sfreq lo hi ! i = NaN"
  proof (intro allI impI)
    fix i assume i: "i < length data"
    have b: "bp_start sfreq i = int i \<and> bp_end (length data) sfreq i = int i"
      using h0 i by (rule bp_divisor_zero)
    have "bandpassFilter data sfreq lo hi ! i = NaN"
      using i b by (simp add: nth_bandpassFilter bp_sum_def)
    with b show "bp_start sfreq i = int i \<and> bp_end (length data) sfreq i = int i \<and>
               bp_end (length data) sfreq i - bp_start sfreq i = 0 \<and>
               bandpassFilter data sfreq lo hi ! i = NaN" by simp
  qed
next
  assume "20 \<le> sfreq"
  then have "1 \<le> halfWindow sfreq" by (rule halfWindow_large)
  then show "\<forall>i<length data. 0 < bp_end (length data) sfreq i - bp_start sfreq i"
    using bp_divisor_pos by blast
next
  assume ne: "data \<noteq> []"
  show "(\<forall>i<length data. bp_end (length data) sfreq i - bp_start sfreq i \<noteq> 0) \<longleftrightarrow> 2 \<le> \<lfloor>sfreq / 10\<rfloor>"
  proof (cases "20 \<le> sfreq")
    case True
    then have "1 \<le> halfWindow sfreq" by (rule halfWindow_large)
    then have "\<forall>i<length data. bp_end (length data) sfreq i - bp_start sfreq i \<noteq> 0"
      using bp_divisor_pos by fastforce
    then show ?thesis using True assms by (simp add: floor_ge2_iff)
  next
    case False
    then have "halfWindow sfreq = 0" using assms by (simp add: halfWindow_small)
    then have "bp_end (length data) sfreq 0 - bp_start sfreq 0 = 0"
      using ne bp_divisor_zero[of sfreq 0 "length data"] by simp
    then have "\<not> (\<forall>i<length data. bp_end (length data) sfreq i - bp_start sfreq i \<noteq> 0)"
      using ne by auto
    then show ?thesis using False assms by (simp add: floor_ge2_iff)
  qed
qed

theorem bandpass_divisor_witness:
  "halfWindow 10 = 0 \<and> bp_end 2 10 1 - bp_start 10 1 = 0 \<and>
   bandpassFilter [Fin 1, Fin 2] 10 1 50 ! 1 = NaN \<and> 0 < bp_end 2 250 1 - bp_start 250 1"
proof -
  have a: "(0::real) \<le> 10" "(0::real) \<le> 250" by simp_all
  have s: "(10::real) < 20" "(20::real) \<le> 250" by simp_all
  have l: "(1::nat) < length [Fin 1, Fin 2]" by simp
  from bandpass_divisor[OF a(1), of "[Fin 1, Fin 2]" 1 50] s(1) l
  have "halfWindow 10 = 0 \<and> bp_end (length [Fin 1, Fin 2]) 10 1 - bp_start 10 1 = 0 \<and>
        bandpassFilter [Fin 1, Fin 2] 10 1 50 ! 1 = NaN" by blast
  moreover from bandpass_divisor[OF a(2), of "[Fin 1, Fin 2]" 1 50] s(2) l
  have "0 < bp_end (length [Fin 1, Fin 2]) 250 1 - bp_start 250 1" by blast
  ultimately show ?thesis by (simp add: numeral_2_eq_2)
qed

subsection \<open>Finite buffers\<close>

lemma fold_add_Fin:
  "(\<And>j. j < b \<Longrightarrow> g j = Fin (h j)) \<Longrightarrow>
   fold (\<lambda>j s. js_add s (g j)) [a..<b] (Fin c) = Fin (c + sum h {a..<b})"
proof (induction b)
  case 0
  then show ?case by simp
next
  case (Suc b)
  show ?case
  proof (cases "a \<le> b")
    case True
    have "fold (\<lambda>j s. js_add s (g j)) [a..<b] (Fin c) = Fin (c + sum h {a..<b})"
      using Suc by simp
    then show ?thesis using True Suc.prems[of b]
      by (simp add: sum.atLeastLessThan_Suc)
  next
    case False
    then show ?thesis by simp
  qed
qed

lemma reduce_sum_acc:
  "fold (\<lambda>val sum. js_add sum val) (map Fin rs) (Fin a) = Fin (a + sum_list rs)"
  by (induction rs arbitrary: a) (simp_all add: add.assoc)

lemma reduce_sum_Fin: "reduce_sum (map Fin rs) = Fin (sum_list rs)"
  by (simp add: reduce_sum_def reduce_sum_acc)

lemma mean_of_Fin:
  "rs \<noteq> [] \<Longrightarrow> mean_of (map Fin rs) = Fin (sum_list rs / real (length rs))"
  by (simp add: mean_of_def reduce_sum_Fin)

lemma mean_of_Nil: "mean_of [] = NaN"
  by (simp add: mean_of_def reduce_sum_def)

lemma removeDCOffset_Fin:
  "rs \<noteq> [] \<Longrightarrow>
   removeDCOffset (map Fin rs) = map Fin (map (\<lambda>v. v - sum_list rs / real (length rs)) rs)"
  by (simp add: removeDCOffset_def mean_of_Fin js_sub_def)

lemma sum_list_centered:
  "rs \<noteq> [] \<Longrightarrow> sum_list (map (\<lambda>v. v - sum_list rs / real (length rs)) rs) = (0::real)"
proof -
  assume ne: "rs \<noteq> []"
  have "sum_list (map (\<lambda>v. v - c) rs) = sum_list rs - real (length rs) * c" for c :: real
    by (induction rs) (simp_all add: algebra_simps)
  then show ?thesis using ne by simp
qed

lemma length_removeDCOffset: "length (removeDCOffset data) = length data"
  by (simp add: removeDCOffset_def)

lemma length_normalize: "length (normalize data) = length data"
  by (simp add: normalize_def)

lemma length_preprocess: "length (preprocess data sfreq cfg) = length data"
  by (simp add: preprocess_def length_normalize length_bandpassFilter length_removeDCOffset)

lemma bp_sum_Fin:
  "0 \<le> start \<Longrightarrow> endx \<le> int (length rs) \<Longrightarrow>
   bp_sum (map Fin rs) start endx = Fin (sum ((!) rs) {nat start..<nat endx})"
proof -
  assume a: "0 \<le> start" "endx \<le> int (length rs)"
  have "fold (\<lambda>j s. js_add s (map Fin rs ! j)) [nat start..<nat endx] (Fin 0)
        = Fin (0 + sum ((!) rs) {nat start..<nat endx})"
    by (rule fold_add_Fin) (use a in simp)
  then show ?thesis by (simp add: bp_sum_def)
qed

lemma bandpassFilter_Fin:
  assumes "20 \<le> sfreq"
  shows "bandpassFilter (map Fin rs) sfreq lo hi = map Fin (map (smooth_at rs sfreq) [0..<length rs])"
proof (rule nth_equalityI)
  show "length (bandpassFilter (map Fin rs) sfreq lo hi) = length (map Fin (map (smooth_at rs sfreq) [0..<length rs]))"
    by (simp add: length_bandpassFilter)
next
  fix i assume "i < length (bandpassFilter (map Fin rs) sfreq lo hi)"
  then have i: "i < length rs" by (simp add: length_bandpassFilter)
  have h: "1 \<le> halfWindow sfreq" using assms by (rule halfWindow_large)
  have d: "0 < bp_end (length rs) sfreq i - bp_start sfreq i"
    using h i by (rule bp_divisor_pos)
  have s: "bp_sum (map Fin rs) (bp_start sfreq i) (bp_end (length rs) sfreq i)
           = Fin (sum ((!) rs) {nat (bp_start sfreq i)..<nat (bp_end (length rs) sfreq i)})"
    by (rule bp_sum_Fin) (rule bp_bounds)+
  show "bandpassFilter (map Fin rs) sfreq lo hi ! i = map Fin (map (smooth_at rs sfreq) [0..<length rs]) ! i"
    using i d s by (simp add: nth_bandpassFilter smooth_at_def)
qed

lemma js_max2_le:
  "js_le (js_max2 m x) (Fin r) \<Longrightarrow> js_le m (Fin r) \<and> js_le x (Fin r)"
  by (cases m; cases x) (auto simp: js_max2_def js_le_def split: if_splits)

lemma fold_max_le:
  "fold (\<lambda>x m. js_max2 m x) xs m0 = Fin r \<Longrightarrow> js_le m0 (Fin r) \<and> (\<forall>x\<in>set xs. js_le x (Fin r))"
proof (induction xs arbitrary: m0)
  case Nil
  then show ?case by (simp add: js_le_def)
next
  case (Cons x xs)
  from Cons.IH[of "js_max2 m0 x"] Cons.prems
  have a: "js_le (js_max2 m0 x) (Fin r)" and b: "\<forall>y\<in>set xs. js_le y (Fin r)" by simp_all
  from js_max2_le[OF a] b show ?case by simp
qed

lemma abs_le_zero: "js_le (Math_abs v) (Fin 0) \<Longrightarrow> v = Fin 0"
  by (cases v) (auto simp: js_le_def)

lemma Math_max_abs_zero:
  assumes "Math_max (map Math_abs xs) = Fin 0"
  shows "\<forall>v\<in>set xs. v = Fin 0"
proof -
  have "\<forall>x\<in>set (map Math_abs xs). js_le x (Fin 0)"
    using assms fold_max_le unfolding Math_max_def by blast
  then show ?thesis using abs_le_zero by simp
qed

lemma normalize_zero_max:
  assumes "Math_max (map Math_abs xs) = Fin 0"
  shows "normalize xs = replicate (length xs) NaN"
proof -
  have z: "\<forall>v\<in>set xs. v = Fin 0" using assms by (rule Math_max_abs_zero)
  have "map (\<lambda>val. js_div val (Fin 0)) xs = map (\<lambda>_. NaN) xs"
    by (rule map_cong) (use z in auto)
  also have "\<dots> = replicate (length xs) NaN" by (simp add: map_replicate_const)
  finally show ?thesis using assms by (simp add: normalize_def)
qed

lemma bandpassFilter_cutoffs:
  "bandpassFilter data sfreq lo hi = bandpassFilter data sfreq lo' hi'"
  by (simp add: bandpassFilter_def)

lemma fold_max_Fin:
  "fold (\<lambda>x m. js_max2 m x) (map Fin rs) (Fin a) = Fin (fold max rs a)"
  by (induction rs arbitrary: a) (simp_all add: js_max2_def max_def)

lemma Math_max_Fin: "rs \<noteq> [] \<Longrightarrow> Math_max (map Fin rs) = Fin (Max (set rs))"
proof -
  assume "rs \<noteq> []"
  then obtain r rs' where e: "rs = r # rs'" by (cases rs) auto
  have "Math_max (map Fin rs) = fold (\<lambda>x m. js_max2 m x) (map Fin rs') (Fin r)"
    by (simp add: e Math_max_def js_max2_def)
  also have "\<dots> = Fin (fold max rs' r)" by (rule fold_max_Fin)
  also have "fold max rs' r = Max (set rs)" unfolding e by (rule Max.set_eq_fold[symmetric])
  finally show ?thesis .
qed



lemma map_abs_Fin: "map Math_abs (map Fin ys) = map Fin (map abs ys)"
  by simp

lemma Math_max_abs_Fin:
  "ys \<noteq> [] \<Longrightarrow> Math_max (map Math_abs (map Fin ys)) = Fin (Max (set (map abs ys)))"
  using Math_max_Fin[of "map abs ys"] by (simp add: comp_def)

lemma normalize_Fin:
  assumes "ys \<noteq> []" and "Max (set (map abs ys)) \<noteq> 0"
  shows "normalize (map Fin ys) = map Fin (map (\<lambda>v. v / Max (set (map abs ys))) ys)"
proof -
  have "normalize (map Fin ys) = map (\<lambda>val. js_div val (Fin (Max (set (map abs ys))))) (map Fin ys)"
    unfolding normalize_def Let_def Math_max_abs_Fin[OF assms(1)] ..
  also have "\<dots> = map Fin (map (\<lambda>v. v / Max (set (map abs ys))) ys)"
    using assms(2) by simp
  finally show ?thesis .
qed

lemma normalized_in_range:
  assumes "ys \<noteq> []" and "v \<in> set ys"
  shows "\<bar>v / Max (set (map abs ys))\<bar> \<le> (1::real)"
proof -
  define m where "m = Max (set (map abs ys))"
  have h1: "\<bar>v\<bar> \<le> m" unfolding m_def by (rule Max_ge) (use assms in auto)
  have "\<bar>v / m\<bar> \<le> 1"
  proof (cases "m = 0")
    case True
    then show ?thesis by simp
  next
    case False
    then have pos: "0 < m" using h1 by linarith
    have "\<bar>v / m\<bar> = \<bar>v\<bar> / m" by (simp only: abs_divide abs_of_pos[OF pos])
    also have "\<dots> \<le> 1" by (rule iffD2[OF divide_le_eq_1_pos[OF pos] h1])
    finally show ?thesis .
  qed
  then show ?thesis unfolding m_def .
qed

lemma bandpass_centered_Fin:
  assumes "rs \<noteq> []" and "20 \<le> sfreq"
  shows "\<exists>ys. ys \<noteq> [] \<and> bandpassFilter (removeDCOffset (map Fin rs)) sfreq lo hi = map Fin ys"
proof -
  let ?ds = "map (\<lambda>v. v - sum_list rs / real (length rs)) rs"
  let ?ys = "map (smooth_at ?ds sfreq) [0..<length ?ds]"
  have "bandpassFilter (removeDCOffset (map Fin rs)) sfreq lo hi = map Fin ?ys"
    unfolding removeDCOffset_Fin[OF assms(1)] by (rule bandpassFilter_Fin[OF assms(2)])
  moreover have "?ys \<noteq> []" using assms by simp
  ultimately show ?thesis by blast
qed

lemma smooth_at_zero:
  assumes "\<forall>v\<in>set rs. v = 0"
  shows "smooth_at rs sfreq i = 0"
proof -
  have "nat (bp_end (length rs) sfreq i) \<le> length rs" using bp_bounds(2)[of "length rs" sfreq i] by simp
  then have "\<forall>j\<in>{nat (bp_start sfreq i)..<nat (bp_end (length rs) sfreq i)}. rs ! j = 0"
    using assms by simp
  then show ?thesis by (simp add: smooth_at_def)
qed

lemma preprocess_zero:
  assumes "0 < n" and "20 \<le> sfreq"
  shows "preprocess (replicate n (Fin 0)) sfreq cfg = replicate n NaN"
proof -
  let ?z = "replicate n (0::real)"
  have z: "replicate n (Fin 0) = map Fin ?z" by simp
  have ne: "?z \<noteq> []" using assms by simp
  have d: "removeDCOffset (map Fin ?z) = map Fin ?z"
    unfolding removeDCOffset_Fin[OF ne] by (simp add: sum_list_replicate)
  have "map (smooth_at ?z sfreq) [0..<length ?z] = map (\<lambda>_. 0) [0..<length ?z]"
    by (rule map_cong) (simp_all add: smooth_at_zero)
  then have "map (smooth_at ?z sfreq) [0..<length ?z] = ?z" by (simp add: map_replicate_const)
  then have b: "bandpassFilter (map Fin ?z) sfreq lo hi = map Fin ?z" for lo hi
    unfolding bandpassFilter_Fin[OF assms(2)] by (rule arg_cong)
  have "Math_max (map Math_abs (map Fin ?z)) = Fin 0"
    unfolding Math_max_abs_Fin[OF ne] using assms(1) by simp
  then have "normalize (map Fin ?z) = replicate (length (map Fin ?z)) NaN"
    by (rule normalize_zero_max)
  then show ?thesis by (simp only: z preprocess_def Let_def d b) simp
qed

subsection \<open>A signal that is zero after smoothing\<close>

text \<open>
  Claim C1, as the code has it. When the largest absolute value after DC-offset removal
  and smoothing is zero, \<open>preprocess\<close> performs the division and returns a buffer of the
  length of its input whose every entry is NaN: no error is signalled.
\<close>

theorem degenerate_signal_yields_NaN:
  assumes "Math_max (map Math_abs (bandpassFilter (removeDCOffset data) sfreq lo hi)) = Fin 0"
  shows "preprocess data sfreq cfg = replicate (length data) NaN"
proof -
  let ?f = "bandpassFilter (removeDCOffset data) sfreq
              (or_default (lowCutoff cfg) 1) (or_default (highCutoff cfg) 50)"
  have "?f = bandpassFilter (removeDCOffset data) sfreq lo hi" by (rule bandpassFilter_cutoffs)
  then have "Math_max (map Math_abs ?f) = Fin 0" using assms by simp
  then have "normalize ?f = replicate (length ?f) NaN" by (rule normalize_zero_max)
  then show ?thesis by (simp add: preprocess_def length_bandpassFilter length_removeDCOffset)
qed

theorem degenerate_signal_yields_NaN_witness:
  "Math_max (map Math_abs (bandpassFilter (removeDCOffset [Fin 5, Fin 5, Fin 5]) 250 1 50)) = Fin 0 \<and>
   preprocess [Fin 5, Fin 5, Fin 5] 250 \<lparr>lowCutoff = None, highCutoff = None\<rparr> = [NaN, NaN, NaN]"
proof -
  have h: "Math_max (map Math_abs (bandpassFilter (removeDCOffset [Fin 5, Fin 5, Fin 5]) 250 1 50)) = Fin 0"
    by code_simp
  have "preprocess [Fin 5, Fin 5, Fin 5] 250 \<lparr>lowCutoff = None, highCutoff = None\<rparr>
        = replicate (length [Fin 5, Fin 5, Fin 5]) NaN"
    using h by (rule degenerate_signal_yields_NaN)
  then show ?thesis using h by (simp add: numeral_3_eq_3)
qed

text \<open>The scenario of the specification: 2500 zero samples at 250 Hz come back as 2500 NaN.\<close>

theorem degenerate_signal_counterexample:
  "preprocess (replicate 2500 (Fin 0)) 250 \<lparr>lowCutoff = None, highCutoff = None\<rparr> = replicate 2500 NaN"
  by (rule preprocess_zero) simp_all

subsection \<open>Shape, mean and range of the conditioned buffer\<close>

text \<open>
  Claim C6, as the code has it. On a non-empty buffer of finite samples the output has
  the length of the input; the mean is 0 after the DC-offset removal (in exact
  arithmetic); and when the sampling rate is at least 20 and the smoothed buffer is not
  identically zero, every output value is a finite number in \<open>[-1, 1]\<close>.
\<close>

theorem condition_shape_and_range:
  assumes "rs \<noteq> []"
  shows "length (preprocess (map Fin rs) sfreq cfg) = length rs
       \<and> mean_of (removeDCOffset (map Fin rs)) = Fin 0
       \<and> (20 \<le> sfreq \<and>
            Math_max (map Math_abs (bandpassFilter (removeDCOffset (map Fin rs)) sfreq lo hi)) \<noteq> Fin 0
          \<longrightarrow> (\<forall>v\<in>set (preprocess (map Fin rs) sfreq cfg). \<exists>r. v = Fin r \<and> - 1 \<le> r \<and> r \<le> 1))"
proof (intro conjI impI)
  show "length (preprocess (map Fin rs) sfreq cfg) = length rs"
    by (simp add: length_preprocess)
next
  have "mean_of (map Fin (map (\<lambda>v. v - sum_list rs / real (length rs)) rs)) = Fin 0"
    using assms by (subst mean_of_Fin) (simp_all add: sum_list_centered)
  then show "mean_of (removeDCOffset (map Fin rs)) = Fin 0"
    unfolding removeDCOffset_Fin[OF assms] .
next
  assume a: "20 \<le> sfreq \<and>
     Math_max (map Math_abs (bandpassFilter (removeDCOffset (map Fin rs)) sfreq lo hi)) \<noteq> Fin 0"
  let ?lo = "or_default (lowCutoff cfg) 1" and ?hi = "or_default (highCutoff cfg) 50"
  obtain ys where ys: "ys \<noteq> []"
      "bandpassFilter (removeDCOffset (map Fin rs)) sfreq ?lo ?hi = map Fin ys"
    using bandpass_centered_Fin[OF assms, of sfreq ?lo ?hi] a by blast
  have e: "bandpassFilter (removeDCOffset (map Fin rs)) sfreq lo hi = map Fin ys"
    by (rule trans[OF bandpassFilter_cutoffs ys(2)])
  from a have "Math_max (map Math_abs (map Fin ys)) \<noteq> Fin 0" unfolding e by blast
  then have "Fin (Max (set (map abs ys))) \<noteq> Fin 0" unfolding Math_max_abs_Fin[OF ys(1)] .
  then have m: "Max (set (map abs ys)) \<noteq> 0" by simp
  have p: "preprocess (map Fin rs) sfreq cfg = map Fin (map (\<lambda>v. v / Max (set (map abs ys))) ys)"
    unfolding preprocess_def Let_def ys(2) by (rule normalize_Fin[OF ys(1) m])
  show "\<forall>v\<in>set (preprocess (map Fin rs) sfreq cfg). \<exists>r. v = Fin r \<and> - 1 \<le> r \<and> r \<le> 1"
  proof
    fix v assume "v \<in> set (preprocess (map Fin rs) sfreq cfg)"
    then obtain y where y: "y \<in> set ys" "v = Fin (y / Max (set (map abs ys)))"
      unfolding p by auto
    have "\<bar>y / Max (set (map abs ys))\<bar> \<le> 1" using ys(1) y(1) by (rule normalized_in_range)
    then have "- 1 \<le> y / Max (set (map abs ys)) \<and> y / Max (set (map abs ys)) \<le> 1" by linarith
    then show "\<exists>r. v = Fin r \<and> - 1 \<le> r \<and> r \<le> 1" using y(2) by blast
  qed
qed

theorem condition_shape_and_range_witness:
  "length (preprocess (map Fin [1, 0, 0]) 20 \<lparr>lowCutoff = None, highCutoff = None\<rparr>) = 3 \<and>
   mean_of (removeDCOffset (map Fin [1, 0, 0])) = Fin 0 \<and>
   (\<exists>r. preprocess (map Fin [1, 0, 0]) 20 \<lparr>lowCutoff = None, highCutoff = None\<rparr> ! 2 = Fin r
        \<and> - 1 \<le> r \<and> r \<le> 1)"
proof -
  let ?cfg = "\<lparr>lowCutoff = None, highCutoff = None\<rparr>"
  have ne: "[1, 0, 0::real] \<noteq> []" by simp
  have nz: "(20::real) \<le> 20 \<and>
      Math_max (map Math_abs (bandpassFilter (removeDCOffset (map Fin [1, 0, 0])) 20 1 50)) \<noteq> Fin 0"
    by code_simp
  note t = condition_shape_and_range[OF ne, of 20 ?cfg 1 50]
  from t have l: "length (preprocess (map Fin [1, 0, 0]) 20 ?cfg) = length [1, 0, 0::real]" by blast
  then have "preprocess (map Fin [1, 0, 0]) 20 ?cfg ! 2 \<in> set (preprocess (map Fin [1, 0, 0]) 20 ?cfg)"
    by (intro nth_mem) simp
  with t nz have "\<exists>r. preprocess (map Fin [1, 0, 0]) 20 ?cfg ! 2 = Fin r \<and> - 1 \<le> r \<and> r \<le> 1"
    by blast
  moreover from t have "mean_of (removeDCOffset (map Fin [1, 0, 0])) = Fin 0" by blast
  ultimately show ?thesis using l by simp
qed

text \<open>
  The buffer handed to \<open>normalize\<close> need not have mean 0: for \<open>[1, 0, 0]\<close> at 20 Hz the
  smoothed buffer has mean \<open>1/6\<close>. A constant buffer, and any buffer below 20 Hz, come
  back as NaN.
\<close>

theorem condition_counterexample:
  "mean_of (bandpassFilter (removeDCOffset [Fin 1, Fin 0, Fin 0]) 20 1 50) = Fin (1 / 6) \<and>
   preprocess [Fin 5, Fin 5, Fin 5] 250 \<lparr>lowCutoff = None, highCutoff = None\<rparr> = [NaN, NaN, NaN] \<and>
   preprocess [Fin 1, Fin 0, Fin 0] 10 \<lparr>lowCutoff = None, highCutoff = None\<rparr> = [NaN, NaN, NaN]"
  by code_simp

section \<open>Properties of the feature extractor\<close>

subsection \<open>Writes into the feature vector\<close>

lemma length_fold_update: "length (fold (\<lambda>i fs. fs[i := g i]) is fs) = length fs"
  by (induction "is" arbitrary: fs) simp_all

lemma fold_update_nth:
  "fold (\<lambda>i fs. fs[i := g i]) [a..<b] fs ! k =
     (if a \<le> k \<and> k < b \<and> k < length fs then g k else fs ! k)"
proof (induction b)
  case 0
  then show ?case by simp
next
  case (Suc b)
  show ?case
  proof (cases "a \<le> b")
    case True
    show ?thesis
    proof (cases "k = b")
      case k: True
      show ?thesis
      proof (cases "b < length fs")
        case True
        then show ?thesis using k \<open>a \<le> b\<close> by (simp add: length_fold_update)
      next
        case False
        then have "(fold (\<lambda>i fs. fs[i := g i]) [a..<b] fs)[b := g b]
                   = fold (\<lambda>i fs. fs[i := g i]) [a..<b] fs"
          by (simp add: list_update_beyond length_fold_update)
        then show ?thesis using k False \<open>a \<le> b\<close> Suc by simp
      qed
    next
      case False
      then show ?thesis using \<open>a \<le> b\<close> Suc by auto
    qed
  next
    case False
    then show ?thesis by auto
  qed
qed



lemma prepareInput_freq:
  "6 \<le> i \<Longrightarrow> i < 64 \<Longrightarrow>
   prepareInput fround data ! i = fround (js_div (freq_power data i) (Fin (real (length data))))"
  unfolding prepareInput_def Let_def fold_update_nth length_fold_update by simp

lemma prepareInput_time:
  "64 \<le> i \<Longrightarrow> i < 128 \<Longrightarrow> prepareInput fround data ! i = fround (window_mean data i)"
  unfolding prepareInput_def Let_def fold_update_nth length_fold_update by simp

subsection \<open>Finite buffers\<close>




lemma freq_power_Fin: "freq_power (map Fin xs) i = Fin (cos_correlation xs i)"
proof -
  have "fold (\<lambda>j p. js_add p (js_mul (Math_cos (js_div (Fin (2 * pi * freq_of i * real j)) (Fin 250)))
                                   (map Fin xs ! j)))
          [0..<length xs] (Fin 0)
        = Fin (0 + (\<Sum>j = 0..<length xs. cos (2 * pi * freq_of i * real j / 250) * xs ! j))"
    by (rule fold_add_Fin) simp
  then show ?thesis by (simp add: freq_power_def cos_correlation_def freq_of_def)
qed

lemma windowStart_eq: "windowStart n (64 + k) = int (win_start n k)"
proof -
  have "((real (64 + k) - 64) / 64) * real n = real (k * n) / real 64" by simp
  then have "windowStart n (64 + k) = \<lfloor>real (k * n) / real 64\<rfloor>"
    unfolding windowStart_def by simp
  also have "\<dots> = int (k * n div 64)" by (rule floor_divide_of_nat_eq)
  finally show ?thesis by (simp add: win_start_def)
qed

lemma div_add_le: "a div 64 + b div 64 \<le> (a + b) div (64::nat)"
proof -
  have "(a div 64 + b div 64) * 64 \<le> a + b"
    using div_times_less_eq_dividend[of a 64] div_times_less_eq_dividend[of b 64] by (simp add: algebra_simps)
  then show ?thesis by (simp add: less_eq_div_iff_mult_less_eq)
qed

lemma win_next: "win_start n k + n div 64 \<le> win_start n (Suc k)"
  using div_add_le[of "k * n" n] by (simp add: win_start_def algebra_simps)

lemma win_start_mono: "k \<le> k' \<Longrightarrow> win_start n k \<le> win_start n k'"
  by (simp add: win_start_def div_le_mono)

lemma win_disjoint: "k < k' \<Longrightarrow> win_start n k + n div 64 \<le> win_start n k'"
  using win_next[of n k] win_start_mono[of "Suc k" k' n] by simp

lemma win_start_top: "win_start n 64 = n"
  by (simp add: win_start_def)

lemma win_within: "k < 64 \<Longrightarrow> win_start n k + n div 64 \<le> n"
  using win_next[of n k] win_start_mono[of "Suc k" 64 n] by (simp add: win_start_top)

lemma windowEnd_eq: "k < 64 \<Longrightarrow> windowEnd n (64 + k) = int (win_start n k + n div 64)"
  using win_within[of k n] by (simp add: windowEnd_def windowStart_eq)

lemma window_mean_Fin:
  assumes "k < 64"
  shows "window_mean (map Fin xs) (64 + k)
         = js_div (Fin (\<Sum>j = win_start (length xs) k..<win_start (length xs) k + length xs div 64. xs ! j))
                  (Fin (real (length xs div 64)))"
proof -
  let ?s = "win_start (length xs) k" and ?w = "length xs div 64"
  have "fold (\<lambda>j m. js_add m (map Fin xs ! j)) [?s..<?s + ?w] (Fin 0)
        = Fin (0 + (\<Sum>j = ?s..<?s + ?w. xs ! j))"
    by (rule fold_add_Fin) (use win_within[OF assms, of "length xs"] in simp)
  then show ?thesis
    by (simp add: window_mean_def Let_def windowStart_eq windowEnd_eq[OF assms] nat_int_add)
qed

lemma window_mean_average:
  "k < 64 \<Longrightarrow> 64 \<le> length xs \<Longrightarrow> window_mean (map Fin xs) (64 + k) = Fin (window_average xs k)"
proof -
  assume a: "k < 64" "64 \<le> length xs"
  have "0 < length xs div 64" using a(2) by (simp add: div_greater_zero_iff)
  then show ?thesis using a(1) by (simp add: window_mean_Fin window_average_def)
qed

lemma win_start_dvd: "64 dvd n \<Longrightarrow> win_start n k = k * (n div 64)"
  by (auto simp: win_start_def elim!: dvdE)

lemma win_short: "\<not> 64 dvd n \<Longrightarrow> k < 64 \<Longrightarrow> win_start n k + n div 64 < n"
proof -
  assume a: "\<not> 64 dvd n" "k < 64"
  have "n mod 64 \<noteq> 0" using a(1) by (simp add: dvd_eq_mod_eq_0)
  then have 1: "(n div 64) * 64 < n" using div_mult_mod_eq[of n 64] by linarith
  have 2: "(k * n div 64) * 64 \<le> k * n" by (rule div_times_less_eq_dividend)
  have 3: "k * n \<le> 63 * n" using a(2) by simp
  have "(k * n div 64 + n div 64) * 64 = (k * n div 64) * 64 + (n div 64) * 64"
    by (simp add: algebra_simps)
  also have "\<dots> < k * n + n" using 1 2 by linarith
  also have "\<dots> \<le> 64 * n" using 3 by simp
  finally show ?thesis by (simp add: win_start_def)
qed

lemma win_cover_iff:
  assumes "0 < n"
  shows "((\<Union>k<64. {win_start n k..<win_start n k + n div 64}) = {0..<n}) \<longleftrightarrow> 64 dvd n"
proof
  assume u: "(\<Union>k<64. {win_start n k..<win_start n k + n div 64}) = {0..<n}"
  show "64 dvd n"
  proof (rule ccontr)
    assume nd: "\<not> 64 dvd n"
    have "n - 1 \<in> {0..<n}" using assms by simp
    then obtain k where k: "k < 64" "n - 1 < win_start n k + n div 64"
      unfolding u[symmetric] by auto
    then show False using win_short[OF nd k(1)] by simp
  qed
next
  assume d: "64 dvd n"
  then obtain w where n: "n = 64 * w" by (elim dvdE)
  have w: "0 < w" using assms n by simp
  have s: "win_start n k = k * w" for k by (simp add: win_start_def n)
  show "(\<Union>k<64. {win_start n k..<win_start n k + n div 64}) = {0..<n}"
  proof (rule set_eqI)
    fix j
    show "j \<in> (\<Union>k<64. {win_start n k..<win_start n k + n div 64}) \<longleftrightarrow> j \<in> {0..<n}"
    proof
      assume "j \<in> (\<Union>k<64. {win_start n k..<win_start n k + n div 64})"
      then obtain k where k: "k < 64" "j < win_start n k + n div 64" by auto
      then show "j \<in> {0..<n}" using win_within[OF k(1), of n] by simp
    next
      assume "j \<in> {0..<n}"
      then have j: "j < 64 * w" by (simp add: n)
      have 1: "j div w < 64" using j w by (simp add: less_mult_imp_div_less mult.commute)
      have 2: "(j div w) * w \<le> j" by (rule div_times_less_eq_dividend)
      have 3: "j < (j div w) * w + w" using w by (metis add.commute div_mult_mod_eq add_less_cancel_left mod_less_divisor)
      have nd: "n div 64 = w" by (simp add: n)
      have "j \<in> {win_start n (j div w)..<win_start n (j div w) + n div 64}"
        unfolding s nd using 2 3 by simp
      then show "j \<in> (\<Union>k<64. {win_start n k..<win_start n k + n div 64})" using 1 by blast
    qed
  qed
qed


subsection \<open>Statistical features\<close>






subsection \<open>Frequency features\<close>

text \<open>
  Claim C4. For \<open>6 \<le> i \<le> 63\<close> entry \<open>i\<close> is the stored value of
  \<open>(\<Sum>j. cos (2 pi f j / 250) * x j) / N\<close> with \<open>f = ((i - 6) / 58) * 50\<close>, the constant 250
  standing for the rate; the sampling rate of the recording is never read, so two
  recordings that differ only in the rate have the same feature vector.
\<close>

theorem frequency_features_fixed_rate:
  assumes "6 \<le> i" and "i \<le> 63"
  shows "prepareInput fround (map Fin xs) ! i
           = fround (js_div (Fin (cos_correlation xs i)) (Fin (real (length xs)))) \<and>
         (xs \<noteq> [] \<longrightarrow> prepareInput fround (map Fin xs) ! i
           = fround (Fin (cos_correlation xs i / real (length xs)))) \<and>
         predict_features fround (e\<lparr>eeg_sfreq := ra\<rparr>) = predict_features fround (e\<lparr>eeg_sfreq := rb\<rparr>)"
proof -
  have i: "i < 64" using assms(2) by simp
  have "prepareInput fround (map Fin xs) ! i
           = fround (js_div (Fin (cos_correlation xs i)) (Fin (real (length xs))))"
    using prepareInput_freq[OF assms(1) i, of fround "map Fin xs"] by (simp add: freq_power_Fin)
  then show ?thesis by (simp add: predict_features_def)
qed

theorem frequency_features_fixed_rate_witness:
  "prepareInput id (map Fin [1, 3]) ! 6 = Fin 2 \<and>
   predict_features id (\<lparr>eeg_data = map Fin [1, 3], eeg_sfreq = 250, channel_name = ''Fz'', duration = None\<rparr>\<lparr>eeg_sfreq := 250\<rparr>)
     = predict_features id (\<lparr>eeg_data = map Fin [1, 3], eeg_sfreq = 250, channel_name = ''Fz'', duration = None\<rparr>\<lparr>eeg_sfreq := 500\<rparr>)"
proof -
  have h: "(6::nat) \<le> 6" "(6::nat) \<le> 63" by simp_all
  have c: "cos_correlation [1, 3] 6 = 4"
    by (simp add: cos_correlation_def numeral_2_eq_2)
  note t = frequency_features_fixed_rate[OF h, where fround = id and xs = "[1, 3]"
      and e = "\<lparr>eeg_data = map Fin [1, 3], eeg_sfreq = 250, channel_name = ''Fz'', duration = None\<rparr>"
      and ra = 250 and rb = 500]
  from t have "prepareInput id (map Fin [1, 3]) ! 6 = id (Fin (cos_correlation [1, 3] 6 / real (length [1, 3::real])))"
    by blast
  then have "prepareInput id (map Fin [1, 3]) ! 6 = Fin 2" by (simp add: c)
  with t show ?thesis by blast
qed

subsection \<open>Time-window features\<close>

lemma window_average_single:
  assumes "length xs div 64 = 1"
  shows "window_average xs k = xs ! win_start (length xs) k"
  unfolding window_average_def assms by simp

text \<open>
  Claim C2, as the code has it. For a buffer of \<open>N \<ge> 64\<close> finite samples and \<open>k < 64\<close>,
  entry \<open>64 + k\<close> is the stored mean of the \<open>floor (N / 64)\<close> samples from index
  \<open>floor (k * N / 64)\<close> on. The clamp by \<open>N\<close> never binds, the windows are pairwise disjoint
  and lie inside the buffer; they start at \<open>k * floor (N / 64)\<close>, and cover the whole
  buffer, exactly when 64 divides \<open>N\<close>.
\<close>

theorem time_window_features:
  assumes "64 \<le> length xs" and "k < 64"
  shows "prepareInput fround (map Fin xs) ! (64 + k) = fround (Fin (window_average xs k)) \<and>
         windowStart (length xs) (64 + k) = int (win_start (length xs) k) \<and>
         windowEnd (length xs) (64 + k) = windowStart (length xs) (64 + k) + int (length xs div 64) \<and>
         win_start (length xs) k + length xs div 64 \<le> length xs \<and>
         (\<forall>k'. k < k' \<longrightarrow> win_start (length xs) k + length xs div 64 \<le> win_start (length xs) k') \<and>
         (64 dvd length xs \<longrightarrow>
            win_start (length xs) k = k * (length xs div 64) \<and>
            prepareInput fround (map Fin xs) ! (64 + k) = fround (Fin (claimed_window_average xs k))) \<and>
         (((\<Union>k<64. {win_start (length xs) k..<win_start (length xs) k + length xs div 64})
             = {0..<length xs}) \<longleftrightarrow> 64 dvd length xs)"
proof -
  have p: "prepareInput fround (map Fin xs) ! (64 + k) = fround (Fin (window_average xs k))"
    using assms by (simp add: prepareInput_time window_mean_average)
  have c: "window_average xs k = claimed_window_average xs k" if "64 dvd length xs"
    using that by (simp add: window_average_def claimed_window_average_def win_start_dvd add.commute)
  have pos: "0 < length xs" using assms(1) by linarith
  show ?thesis
    using p c win_cover_iff[OF pos] win_within[OF assms(2), of "length xs"] win_disjoint[of k _ "length xs"]
    by (simp add: windowStart_eq windowEnd_eq[OF assms(2)] win_start_dvd)
qed

theorem time_window_features_witness:
  "prepareInput id (map Fin (map real [0..<64])) ! 65 = Fin 1 \<and>
   windowEnd 64 65 = windowStart 64 65 + 1 \<and>
   win_start 64 1 + 64 div 64 \<le> win_start 64 2 \<and>
   win_start 64 1 = 1 * (64 div 64) \<and>
   prepareInput id (map Fin (map real [0..<64])) ! 65 = Fin (claimed_window_average (map real [0..<64]) 1)"
proof -
  have h: "64 \<le> length (map real [0..<64])" "(1::nat) < 64" by simp_all
  have d: "64 dvd length (map real [0..<64])" by simp
  have k: "(1::nat) < 2" by simp
  have w: "window_average (map real [0..<64]) 1 = 1"
    by (subst window_average_single) (simp_all add: win_start_def)
  note t = time_window_features[OF h, of id]
  from t have a: "prepareInput id (map Fin (map real [0..<64])) ! (64 + 1)
                  = id (Fin (window_average (map real [0..<64]) 1))"
    by blast
  from t have b: "windowEnd (length (map real [0..<64])) (64 + 1)
                  = windowStart (length (map real [0..<64])) (64 + 1) + int (length (map real [0..<64]) div 64)"
    by blast
  from t k have c: "win_start (length (map real [0..<64])) 1 + length (map real [0..<64]) div 64
                  \<le> win_start (length (map real [0..<64])) 2"
    by blast
  from t d have e: "win_start (length (map real [0..<64])) 1 = 1 * (length (map real [0..<64]) div 64) \<and>
       prepareInput id (map Fin (map real [0..<64])) ! (64 + 1)
         = id (Fin (claimed_window_average (map real [0..<64]) 1))"
    by blast
  from a b c e show ?thesis unfolding w by simp
qed

text \<open>
  For the 100 samples \<open>0, 1, ..., 99\<close> the window of entry 66 is the single index
  \<open>floor (200 / 64) = 3\<close>, not the index 2 of the specification's wording.
\<close>

theorem time_window_counterexample:
  "prepareInput id (map Fin (map real [0..<100])) ! 66 = Fin 3 \<and>
   claimed_window_average (map real [0..<100]) 2 = 2"
proof -
  have w: "window_average (map real [0..<100]) 2 = 3"
    by (subst window_average_single) (simp_all add: win_start_def)
  have a: "prepareInput id (map Fin (map real [0..<100])) ! (64 + 2)
           = id (window_mean (map Fin (map real [0..<100])) (64 + 2))"
    by (rule prepareInput_time) simp_all
  have b: "window_mean (map Fin (map real [0..<100])) (64 + 2)
           = Fin (window_average (map real [0..<100]) 2)"
    by (rule window_mean_average) simp_all
  have 1: "prepareInput id (map Fin (map real [0..<100])) ! 66 = Fin 3"
    using a unfolding b w by simp
  have "(\<Sum>j = 2..<3. map real [0..<100] ! j) = map real [0..<100] ! 2"
    using sum.atLeastLessThan_Suc[of 2 2 "\<lambda>j. map real [0..<100] ! j"] by (simp add: numeral_3_eq_3 numeral_2_eq_2)
  then have 2: "claimed_window_average (map real [0..<100]) 2 = 2"
    by (simp add: claimed_window_average_def)
  from 1 2 show ?thesis by simp
qed

section \<open>Properties of the spectrogram generator\<close>

subsection \<open>Array lengths\<close>

lemma numWindows_of_nonzero:
  "hopSize \<noteq> 0 \<Longrightarrow>
   numWindows_of len windowSize hopSize = Fin (of_int ((int len - int windowSize) div hopSize + 1))"
proof -
  assume h: "hopSize \<noteq> 0"
  have "real len - real windowSize = real_of_int (int len - int windowSize)" by simp
  then have "\<lfloor>(real len - real windowSize) / real_of_int hopSize\<rfloor> = (int len - int windowSize) div hopSize"
    by (simp only: floor_divide_of_int_eq)
  then show ?thesis using h by (simp add: numWindows_of_def)
qed

lemma numWindows_of_zero:
  "numWindows_of len windowSize 0 \<in> {NaN, PInf, NInf}"
  by (simp add: numWindows_of_def)

lemma Array_len_int:
  "Array_len (Fin (of_int z)) = (if 0 \<le> z \<and> z \<le> 2 ^ 32 - 1 then Inr (nat z) else Inl RangeError)"
proof -
  have "(real_of_int z \<le> 2 ^ 32 - 1) = (z \<le> 2 ^ 32 - 1)"
    using of_int_le_iff[of z "2 ^ 32 - 1", where 'a = real] by simp
  then show ?thesis by (simp add: Array_len_def)
qed

lemma Array_len_special:
  "n \<in> {NaN, PInf, NInf} \<Longrightarrow> Array_len n = Inl RangeError"
  by (auto simp: Array_len_def)

lemma Array_from_int:
  "Array_from (Fin (of_int z)) f = (if 2 ^ 32 - 1 < z then Inl RangeError else Inr (map f [0..<nat z]))"
proof (cases "2 ^ 32 - 1 < z")
  case True
  then have "(2::nat) ^ 32 - 1 < nat z" by simp
  moreover have "(2::nat) ^ 32 - 1 < 2 ^ 53 - 1" by simp
  ultimately have "(2::nat) ^ 32 - 1 < min (nat z) (2 ^ 53 - 1)" by simp
  then show ?thesis using True by (simp add: Array_from_def ToLength_def Let_def)
next
  case False
  then have a: "nat z \<le> 2 ^ 32 - 1" by simp
  moreover have "(2::nat) ^ 32 - 1 < 2 ^ 53 - 1" by simp
  ultimately have "min (nat z) (2 ^ 53 - 1) = nat z" by simp
  then show ?thesis using False a by (simp add: Array_from_def ToLength_def Let_def)
qed

lemma Array_from_special:
  "n \<in> {NaN, PInf, NInf} \<Longrightarrow> Array_from n f = Inl RangeError \<or> Array_from n f = Inr []"
  by (auto simp: Array_from_def ToLength_def Let_def)

lemma js_error_eq: "(e::js_error) = RangeError"
  by (cases e) simp

lemma Array_from_nat:
  "Array_from (Fin (real n)) f = (if 2 ^ 32 - 1 < n then Inl RangeError else Inr (map f [0..<n]))"
proof -
  have "Fin (real n) = Fin (of_int (int n))" by simp
  then have "Array_from (Fin (real n)) f
             = (if 2 ^ 32 - 1 < int n then Inl RangeError else Inr (map f [0..<nat (int n)]))"
    by (simp only: Array_from_int)
  moreover have "((2::int) ^ 32 - 1 < int n) = ((2::nat) ^ 32 - 1 < n)" by simp
  ultimately show ?thesis by simp
qed

lemma generateSpectrogram_hop_zero:
  assumes "hopSize_of windowSize overlap = 0"
  shows "generateSpectrogram data sfreq windowSize overlap = Inl RangeError"
proof -
  let ?n = "numWindows_of (length data) windowSize 0"
  have s: "?n \<in> {NaN, PInf, NInf}" by (rule numWindows_of_zero)
  have l: "Array_len ?n = Inl RangeError" using s by (rule Array_len_special)
  have "\<exists>e. generateSpectrogram data sfreq windowSize overlap = Inl e"
    unfolding generateSpectrogram_def Let_def assms l
    by (simp split: sum.splits)
  then show ?thesis using js_error_eq by metis
qed

lemma generateSpectrogram_hop_nonzero:
  assumes "hopSize_of windowSize overlap \<noteq> 0"
  shows "generateSpectrogram data sfreq windowSize overlap =
    (if 2 ^ 32 - 1 < freqBins_of windowSize then Inl RangeError
     else if (int (length data) - int windowSize) div hopSize_of windowSize overlap + 1 < 0
           \<or> 2 ^ 32 - 1 < (int (length data) - int windowSize) div hopSize_of windowSize overlap + 1
          then Inl RangeError
     else Inr \<lparr>frequencies = map (\<lambda>i. js_div (Fin (real i * sfreq)) (Fin (real windowSize)))
                                [0..<freqBins_of windowSize],
              times_axis = map (\<lambda>i. js_div (Fin (real i * of_int (hopSize_of windowSize overlap))) (Fin sfreq))
                               [0..<nat ((int (length data) - int windowSize) div hopSize_of windowSize overlap + 1)],
              power_matrix =
                stft_loop data windowSize (hopSize_of windowSize overlap) (freqBins_of windowSize)
                  (nat ((int (length data) - int windowSize) div hopSize_of windowSize overlap + 1))
                  (replicate (freqBins_of windowSize)
                     (replicate (nat ((int (length data) - int windowSize) div hopSize_of windowSize overlap + 1))
                        (Fin 0)))\<rparr>)"
  unfolding generateSpectrogram_def Let_def numWindows_of_nonzero[OF assms] Array_from_nat
    Array_from_int Array_len_int
  by simp

subsection \<open>The loops over the power matrix\<close>

lemma length_set2d: "length (set2d m r c v) = length m"
  by (simp add: set2d_def)

lemma nth_set2d:
  "r < length m \<Longrightarrow> set2d m r c v ! k = (if k = r then (m ! r)[c := v] else m ! k)"
  by (simp add: set2d_def nth_list_update)

lemma length_fold_set2d:
  "length (fold (\<lambda>f pw. set2d pw f w (g f)) fs pw) = length pw"
  by (induction fs arbitrary: pw) (simp_all add: length_set2d)

lemma nth_fold_set2d:
  "n \<le> length pw \<Longrightarrow>
   fold (\<lambda>f pw. set2d pw f w (g f)) [0..<n] pw ! k = (if k < n then (pw ! k)[w := g k] else pw ! k)"
proof (induction n arbitrary: k)
  case 0
  then show ?case by simp
next
  case (Suc n)
  let ?p = "fold (\<lambda>f pw. set2d pw f w (g f)) [0..<n] pw"
  have l: "n < length ?p" using Suc.prems by (simp add: length_fold_set2d)
  have ih: "?p ! j = (if j < n then (pw ! j)[w := g j] else pw ! j)" for j
    using Suc by simp
  have "fold (\<lambda>f pw. set2d pw f w (g f)) [0..<Suc n] pw ! k = set2d ?p n w (g n) ! k"
    by simp
  also have "\<dots> = (if k = n then (?p ! n)[w := g n] else ?p ! k)"
    using l by (rule nth_set2d)
  also have "\<dots> = (if k < Suc n then (pw ! k)[w := g k] else pw ! k)"
    using ih[of n] ih[of k] by auto
  finally show ?case .
qed

lemma length_stft_column: "length (stft_column wd ws fb w pw) = length pw"
  by (simp add: stft_column_def length_fold_set2d)

lemma nth_stft_column:
  "fb \<le> length pw \<Longrightarrow>
   stft_column wd ws fb w pw ! k =
     (if k < fb then (pw ! k)[w := log_power (dft_bin wd ws k)] else pw ! k)"
  unfolding stft_column_def by (rule nth_fold_set2d)

lemma length_stft_loop: "length (stft_loop data ws hop fb m pw) = length pw"
  unfolding stft_loop_def
  by (induction m) (simp_all add: length_stft_column)

lemma stft_loop_row:
  assumes "k < fb" and "fb \<le> length pw"
  shows "stft_loop data ws hop fb m pw ! k =
     fold (\<lambda>w row. row[w := log_power (dft_bin (window_at data ws hop w) ws k)]) [0..<m] (pw ! k)"
proof (induction m)
  case 0
  then show ?case by (simp add: stft_loop_def)
next
  case (Suc m)
  have l: "fb \<le> length (stft_loop data ws hop fb m pw)"
    using assms(2) by (simp add: length_stft_loop)
  have "stft_loop data ws hop fb (Suc m) pw
        = stft_column (window_at data ws hop m) ws fb m (stft_loop data ws hop fb m pw)"
    by (simp add: stft_loop_def)
  then have "stft_loop data ws hop fb (Suc m) pw ! k
        = (stft_loop data ws hop fb m pw ! k)[m := log_power (dft_bin (window_at data ws hop m) ws k)]"
    using assms(1) by (simp only: nth_stft_column[OF l] if_True)
  then show ?case using Suc by simp
qed

lemma stft_loop_row_length:
  "k < fb \<Longrightarrow> fb \<le> length pw \<Longrightarrow>
   length (stft_loop data ws hop fb m pw ! k) = length (pw ! k)"
  by (simp add: stft_loop_row length_fold_update)

lemma stft_loop_entry:
  "k < fb \<Longrightarrow> fb \<le> length pw \<Longrightarrow> w < m \<Longrightarrow> w < length (pw ! k) \<Longrightarrow>
   stft_loop data ws hop fb m pw ! k ! w = log_power (dft_bin (window_at data ws hop w) ws k)"
  by (simp add: stft_loop_row fold_update_nth)

subsection \<open>Shape and frequency axis\<close>

lemma hop_pos_window_pos: "1 \<le> hopSize_of windowSize overlap \<Longrightarrow> 1 \<le> windowSize"
  by (cases "windowSize = 0") (simp_all add: hopSize_of_def)

lemma freqBins_le: "1 \<le> windowSize \<Longrightarrow> freqBins_of windowSize \<le> windowSize"
  by (simp add: freqBins_of_def)

lemma numWindows_int:
  assumes "windowSize \<le> len" and "1 \<le> hop"
  shows "(int len - int windowSize) div hop + 1 = int ((len - windowSize) div nat hop + 1)"
proof -
  have a: "int (nat hop) = hop" using assms(2) by simp
  have b: "int len - int windowSize = int (len - windowSize)" using assms(1) by simp
  have "int ((len - windowSize) div nat hop) = int (len - windowSize) div int (nat hop)"
    by (rule zdiv_int)
  then have "int ((len - windowSize) div nat hop) = (int len - int windowSize) div hop"
    unfolding a b[symmetric] .
  then show ?thesis by simp
qed

lemma spectrogram_shape:
  assumes "length data < 2 ^ 32" and "windowSize \<le> length data"
    and "1 \<le> hopSize_of windowSize overlap"
  shows "generateSpectrogram data sfreq windowSize overlap =
     Inr \<lparr>frequencies = map (\<lambda>i. js_div (Fin (real i * sfreq)) (Fin (real windowSize)))
                             [0..<freqBins_of windowSize],
          times_axis = map (\<lambda>i. js_div (Fin (real i * of_int (hopSize_of windowSize overlap))) (Fin sfreq))
                           [0..<(length data - windowSize) div nat (hopSize_of windowSize overlap) + 1],
          power_matrix =
            stft_loop data windowSize (hopSize_of windowSize overlap) (freqBins_of windowSize)
              ((length data - windowSize) div nat (hopSize_of windowSize overlap) + 1)
              (replicate (freqBins_of windowSize)
                 (replicate ((length data - windowSize) div nat (hopSize_of windowSize overlap) + 1)
                    (Fin 0)))\<rparr>"
proof -
  let ?hop = "hopSize_of windowSize overlap"
  let ?nW = "(length data - windowSize) div nat ?hop + 1"
  have h0: "?hop \<noteq> 0" using assms(3) by simp
  have w1: "1 \<le> windowSize" using assms(3) by (rule hop_pos_window_pos)
  have z: "(int (length data) - int windowSize) div ?hop + 1 = int ?nW"
    using assms(2,3) by (rule numWindows_int)
  have "freqBins_of windowSize \<le> length data" using freqBins_le[OF w1] assms(2) by simp
  then have fb: "(2 ^ 32 - 1 < freqBins_of windowSize) = False" using assms(1) by simp
  define d where "d = (length data - windowSize) div nat ?hop"
  have "d \<le> length data - windowSize" unfolding d_def by (rule div_le_dividend)
  then have "d + 1 \<le> length data" using w1 assms(2) by linarith
  then have "?nW \<le> 2 ^ 32 - 1" using assms(1) unfolding d_def by simp
  then have nb: "(int ?nW < 0 \<or> 2 ^ 32 - 1 < int ?nW) = False" by simp
  show ?thesis
    unfolding generateSpectrogram_hop_nonzero[OF h0] z fb nb if_False nat_int ..
qed

lemma freq_value:
  assumes "1 \<le> windowSize" and "k < freqBins_of windowSize" and "0 < sfreq"
  shows "js_div (Fin (real k * sfreq)) (Fin (real windowSize)) = Fin (real k * sfreq / real windowSize)"
    and "real k * sfreq / real windowSize \<le> sfreq / 2"
proof -
  show "js_div (Fin (real k * sfreq)) (Fin (real windowSize)) = Fin (real k * sfreq / real windowSize)"
    using assms(1) by simp
  have "2 * k \<le> windowSize" using assms(2) by (simp add: freqBins_of_def)
  then have "2 * real k \<le> real windowSize" by (metis of_nat_le_iff of_nat_mult of_nat_numeral)
  then have "real k / real windowSize \<le> 1 / 2" using assms(1) by (simp add: divide_le_eq)
  then have "sfreq * (real k / real windowSize) \<le> sfreq * (1 / 2)"
    using assms(3) by (simp only: mult_le_cancel_left_pos)
  then show "real k * sfreq / real windowSize \<le> sfreq / 2" by (simp add: mult.commute)
qed

lemma freq_increasing:
  assumes "1 \<le> windowSize" and "j < k" and "0 < sfreq"
  shows "real j * sfreq / real windowSize < real k * sfreq / real windowSize"
proof -
  have "real j * sfreq < real k * sfreq" using assms(2,3) by simp
  then show ?thesis using assms(1) by (simp add: divide_strict_right_mono)
qed

lemma spectrogram_general:
  assumes "length data < 2 ^ 32" and "windowSize \<le> length data"
    and "1 \<le> hopSize_of windowSize overlap" and "0 < sfreq"
  shows "\<exists>sp. generateSpectrogram data sfreq windowSize overlap = Inr sp \<and>
       length (power_matrix sp) = windowSize div 2 + 1 \<and>
       length (frequencies sp) = windowSize div 2 + 1 \<and>
       length (times_axis sp) = (length data - windowSize) div nat (hopSize_of windowSize overlap) + 1 \<and>
       (\<forall>row \<in> set (power_matrix sp). length row = length (times_axis sp)) \<and>
       (\<forall>k < length (frequencies sp).
           frequencies sp ! k = Fin (real k * sfreq / real windowSize) \<and>
           real k * sfreq / real windowSize \<le> sfreq / 2) \<and>
       (\<forall>j k. j < k \<and> k < length (frequencies sp) \<longrightarrow> js_lt (frequencies sp ! j) (frequencies sp ! k))"
proof -
  define hop where "hop = hopSize_of windowSize overlap"
  define nW where "nW = (length data - windowSize) div nat hop + 1"
  define fb where "fb = freqBins_of windowSize"
  define pw where "pw = stft_loop data windowSize hop fb nW (replicate fb (replicate nW (Fin 0)))"
  define fs where "fs = map (\<lambda>i. js_div (Fin (real i * sfreq)) (Fin (real windowSize))) [0..<fb]"
  define ts where "ts = map (\<lambda>i. js_div (Fin (real i * of_int hop)) (Fin sfreq)) [0..<nW]"
  have g: "generateSpectrogram data sfreq windowSize overlap
           = Inr \<lparr>frequencies = fs, times_axis = ts, power_matrix = pw\<rparr>"
    unfolding fs_def ts_def pw_def fb_def nW_def hop_def
    using assms(1,2,3) by (rule spectrogram_shape)
  have w1: "1 \<le> windowSize" using assms(3) by (rule hop_pos_window_pos)
  have fbv: "fb = windowSize div 2 + 1" by (simp add: fb_def freqBins_of_def)
  have lfs: "length fs = fb" by (simp add: fs_def)
  have lts: "length ts = nW" by (simp add: ts_def)
  have lp: "length pw = fb" by (simp add: pw_def length_stft_loop)
  have rows: "\<forall>row \<in> set pw. length row = nW"
  proof
    fix row assume "row \<in> set pw"
    then obtain k where k: "k < length pw" "pw ! k = row" by (auto simp: in_set_conv_nth)
    have kf: "k < fb" using k(1) lp by simp
    have "length (pw ! k) = length (replicate fb (replicate nW (Fin 0)) ! k)"
      unfolding pw_def by (rule stft_loop_row_length[OF kf]) simp
    then show "length row = nW" using k(2) kf by simp
  qed
  have fv: "fs ! k = Fin (real k * sfreq / real windowSize)" if "k < fb" for k
  proof -
    have "fs ! k = js_div (Fin (real k * sfreq)) (Fin (real windowSize))"
      using that by (simp add: fs_def)
    also have "\<dots> = Fin (real k * sfreq / real windowSize)"
      using w1 by simp
    finally show ?thesis .
  qed
  have fu: "real k * sfreq / real windowSize \<le> sfreq / 2" if "k < fb" for k
    using that unfolding fb_def by (rule freq_value(2)[OF w1 _ assms(4)])
  have inc: "js_lt (fs ! j) (fs ! k)" if "j < k" "k < fb" for j k
  proof -
    have "j < fb" using that by simp
    then have "fs ! j = Fin (real j * sfreq / real windowSize)" by (rule fv)
    moreover have "fs ! k = Fin (real k * sfreq / real windowSize)" using that(2) by (rule fv)
    moreover have "real j * sfreq / real windowSize < real k * sfreq / real windowSize"
      using w1 that(1) assms(4) by (rule freq_increasing)
    ultimately show ?thesis by simp
  qed
  show ?thesis
  proof (intro exI conjI)
    show "generateSpectrogram data sfreq windowSize overlap
           = Inr \<lparr>frequencies = fs, times_axis = ts, power_matrix = pw\<rparr>" by (rule g)
    show "length (power_matrix \<lparr>frequencies = fs, times_axis = ts, power_matrix = pw\<rparr>) = windowSize div 2 + 1"
      using lp fbv by simp
    show "length (frequencies \<lparr>frequencies = fs, times_axis = ts, power_matrix = pw\<rparr>) = windowSize div 2 + 1"
      using lfs fbv by simp
    show "length (times_axis \<lparr>frequencies = fs, times_axis = ts, power_matrix = pw\<rparr>)
            = (length data - windowSize) div nat (hopSize_of windowSize overlap) + 1"
      using lts by (simp add: nW_def hop_def)
    show "\<forall>row \<in> set (power_matrix \<lparr>frequencies = fs, times_axis = ts, power_matrix = pw\<rparr>).
            length row = length (times_axis \<lparr>frequencies = fs, times_axis = ts, power_matrix = pw\<rparr>)"
      using rows lts by simp
    show "\<forall>k < length (frequencies \<lparr>frequencies = fs, times_axis = ts, power_matrix = pw\<rparr>).
           frequencies \<lparr>frequencies = fs, times_axis = ts, power_matrix = pw\<rparr> ! k
             = Fin (real k * sfreq / real windowSize) \<and>
           real k * sfreq / real windowSize \<le> sfreq / 2"
      using fv fu lfs by simp
    show "\<forall>j k. j < k \<and> k < length (frequencies \<lparr>frequencies = fs, times_axis = ts, power_matrix = pw\<rparr>)
           \<longrightarrow> js_lt (frequencies \<lparr>frequencies = fs, times_axis = ts, power_matrix = pw\<rparr> ! j)
                       (frequencies \<lparr>frequencies = fs, times_axis = ts, power_matrix = pw\<rparr> ! k)"
      using inc lfs by simp
  qed
qed

lemma int_div_below:
  assumes "0 < h" and "a < - h"
  shows "a div h + 1 < (0::int)"
proof -
  have e: "h * (a div h) + a mod h = a" by (rule mult_div_mod_eq)
  have "0 \<le> a mod h" using assms(1) by (rule pos_mod_sign)
  with e have "h * (a div h) \<le> a" by linarith
  then have "h * (a div h) < - h" using assms(2) by linarith
  then have "h * (a div h) < h * (- 1)" by simp
  then have "a div h < - 1" using assms(1) by (simp only: mult_less_cancel_left_pos)
  then show ?thesis by simp
qed

lemma int_div_minus_one:
  assumes "0 < h" and "- h \<le> a" and "a < 0"
  shows "a div h + 1 = (0::int)"
proof -
  have e: "h * (a div h) + a mod h = a" by (rule mult_div_mod_eq)
  have m0: "0 \<le> a mod h" using assms(1) by (rule pos_mod_sign)
  have m1: "a mod h < h" using assms(1) by (rule pos_mod_bound)
  from e m0 assms(3) have "h * (a div h) < 0" by linarith
  then have "h * (a div h) < h * 0" by simp
  then have u: "a div h < 0" using assms(1) by (simp only: mult_less_cancel_left_pos)
  from e m1 assms(2) have "- 2 * h < h * (a div h)" by linarith
  then have "h * (- 2) < h * (a div h)" by (simp add: mult.commute)
  then have l: "- 2 < a div h" using assms(1) by (simp only: mult_less_cancel_left_pos)
  from u l show ?thesis by simp
qed

lemma hopSize_half: "hopSize_of 256 (1 / 2) = 128"
  by (simp add: hopSize_of_def)

lemma hop_nonneg: "overlap \<le> 1 \<Longrightarrow> 0 \<le> hopSize_of windowSize overlap"
  by (simp add: hopSize_of_def)

lemma generateSpectrogram_too_short:
  assumes "1 \<le> hopSize_of windowSize overlap"
    and "length data + nat (hopSize_of windowSize overlap) < windowSize"
  shows "generateSpectrogram data sfreq windowSize overlap = Inl RangeError"
proof -
  let ?hop = "hopSize_of windowSize overlap"
  have h0: "?hop \<noteq> 0" using assms(1) by simp
  have "int (length data) - int windowSize < - ?hop" using assms by linarith
  then have "(int (length data) - int windowSize) div ?hop + 1 < 0"
    using assms(1) by (intro int_div_below) simp_all
  then show ?thesis unfolding generateSpectrogram_hop_nonzero[OF h0] by simp
qed

lemma generateSpectrogram_no_window:
  assumes "1 \<le> hopSize_of windowSize overlap" and "windowSize < 2 ^ 32"
    and "length data < windowSize"
    and "windowSize \<le> length data + nat (hopSize_of windowSize overlap)"
  shows "generateSpectrogram data sfreq windowSize overlap =
     Inr \<lparr>frequencies = map (\<lambda>i. js_div (Fin (real i * sfreq)) (Fin (real windowSize)))
                             [0..<windowSize div 2 + 1],
          times_axis = [],
          power_matrix = replicate (windowSize div 2 + 1) []\<rparr>"
proof -
  let ?hop = "hopSize_of windowSize overlap"
  have h0: "?hop \<noteq> 0" using assms(1) by simp
  have "- ?hop \<le> int (length data) - int windowSize" using assms(1,4) by linarith
  moreover have "int (length data) - int windowSize < 0" using assms(3) by simp
  ultimately have z: "(int (length data) - int windowSize) div ?hop + 1 = 0"
    using assms(1) by (intro int_div_minus_one) simp_all
  have "freqBins_of windowSize \<le> windowSize" using assms(3) by (intro freqBins_le) simp
  then have fb: "(2 ^ 32 - 1 < freqBins_of windowSize) = False" using assms(2) by simp
  show ?thesis
    unfolding generateSpectrogram_hop_nonzero[OF h0] z fb
    by (simp add: stft_loop_def freqBins_of_def)
qed

text \<open>
  Claim C5. When the buffer (of fewer than \<open>2^32\<close> samples, as every array) is at least as
  long as the window, the hop size is at least 1 and the sampling rate is positive,
  \<open>generateSpectrogram\<close> returns a spectrogram with \<open>floor (windowSize / 2) + 1\<close> frequency
  bins and power rows, \<open>floor ((len - windowSize) / hopSize) + 1\<close> time stamps and as many
  entries in every power row; bin \<open>k\<close> is \<open>k * sfreq / windowSize\<close>, strictly increasing and
  at most \<open>sfreq / 2\<close>. 2500 samples at 250 Hz with window 256 and overlap 0.5 give 129
  bins, 18 windows and the top frequency 125; 256 samples give one window.
\<close>

theorem spectrogram_invariants:
  "(length data < 2 ^ 32 \<and> windowSize \<le> length data \<and> 1 \<le> hopSize_of windowSize overlap \<and> 0 < sfreq \<longrightarrow>
     (\<exists>sp. generateSpectrogram data sfreq windowSize overlap = Inr sp \<and>
       length (power_matrix sp) = windowSize div 2 + 1 \<and>
       length (frequencies sp) = windowSize div 2 + 1 \<and>
       length (times_axis sp) = (length data - windowSize) div nat (hopSize_of windowSize overlap) + 1 \<and>
       (\<forall>row \<in> set (power_matrix sp). length row = length (times_axis sp)) \<and>
       (\<forall>k < length (frequencies sp).
           frequencies sp ! k = Fin (real k * sfreq / real windowSize) \<and>
           real k * sfreq / real windowSize \<le> sfreq / 2) \<and>
       (\<forall>j k. j < k \<and> k < length (frequencies sp) \<longrightarrow> js_lt (frequencies sp ! j) (frequencies sp ! k))))
   \<and> (length data = 2500 \<longrightarrow>
     (\<exists>sp. generateSpectrogram data 250 256 (1 / 2) = Inr sp \<and>
       length (frequencies sp) = 129 \<and> length (power_matrix sp) = 129 \<and>
       length (times_axis sp) = 18 \<and> last (frequencies sp) = Fin 125))
   \<and> (length data = 256 \<longrightarrow>
     (\<exists>sp. generateSpectrogram data 250 256 (1 / 2) = Inr sp \<and> length (times_axis sp) = 1))"
proof (intro conjI impI)
  assume "length data < 2 ^ 32 \<and> windowSize \<le> length data \<and> 1 \<le> hopSize_of windowSize overlap \<and> 0 < sfreq"
  then show "\<exists>sp. generateSpectrogram data sfreq windowSize overlap = Inr sp \<and>
       length (power_matrix sp) = windowSize div 2 + 1 \<and>
       length (frequencies sp) = windowSize div 2 + 1 \<and>
       length (times_axis sp) = (length data - windowSize) div nat (hopSize_of windowSize overlap) + 1 \<and>
       (\<forall>row \<in> set (power_matrix sp). length row = length (times_axis sp)) \<and>
       (\<forall>k < length (frequencies sp).
           frequencies sp ! k = Fin (real k * sfreq / real windowSize) \<and>
           real k * sfreq / real windowSize \<le> sfreq / 2) \<and>
       (\<forall>j k. j < k \<and> k < length (frequencies sp) \<longrightarrow> js_lt (frequencies sp ! j) (frequencies sp ! k))"
    using spectrogram_general[of data windowSize overlap sfreq] by blast
next
  assume l: "length data = 2500"
  have h: "length data < 2 ^ 32" "256 \<le> length data" "1 \<le> hopSize_of 256 (1 / 2)" "(0::real) < 250"
    using l by (simp_all add: hopSize_half)
  obtain sp where sp: "generateSpectrogram data 250 256 (1 / 2) = Inr sp"
      "length (power_matrix sp) = 256 div 2 + 1" "length (frequencies sp) = 256 div 2 + 1"
      "length (times_axis sp) = (length data - 256) div nat (hopSize_of 256 (1 / 2)) + 1"
      "\<forall>k < length (frequencies sp). frequencies sp ! k = Fin (real k * 250 / real 256) \<and>
           real k * 250 / real 256 \<le> 250 / 2"
    using spectrogram_general[OF h] by blast
  have lf: "length (frequencies sp) = 129" using sp(3) by simp
  have "frequencies sp \<noteq> []" using lf by auto
  then have "last (frequencies sp) = frequencies sp ! 128" using lf by (simp add: last_conv_nth)
  also have "\<dots> = Fin (real 128 * 250 / real 256)" using sp(5) lf by simp
  finally have la: "last (frequencies sp) = Fin 125" by simp
  have "length (times_axis sp) = 18" using sp(4) l by (simp add: hopSize_half)
  then show "\<exists>sp. generateSpectrogram data 250 256 (1 / 2) = Inr sp \<and>
       length (frequencies sp) = 129 \<and> length (power_matrix sp) = 129 \<and>
       length (times_axis sp) = 18 \<and> last (frequencies sp) = Fin 125"
    using sp(1,2) lf la by simp
next
  assume l: "length data = 256"
  have h: "length data < 2 ^ 32" "256 \<le> length data" "1 \<le> hopSize_of 256 (1 / 2)" "(0::real) < 250"
    using l by (simp_all add: hopSize_half)
  obtain sp where sp: "generateSpectrogram data 250 256 (1 / 2) = Inr sp"
      "length (times_axis sp) = (length data - 256) div nat (hopSize_of 256 (1 / 2)) + 1"
    using spectrogram_general[OF h] by blast
  have "length (times_axis sp) = 1" using sp(2) l by (simp add: hopSize_half)
  then show "\<exists>sp. generateSpectrogram data 250 256 (1 / 2) = Inr sp \<and> length (times_axis sp) = 1"
    using sp(1) by blast
qed

theorem spectrogram_invariants_witness:
  "(\<exists>sp. generateSpectrogram (replicate 2500 (Fin 1)) 250 256 (1 / 2) = Inr sp \<and>
       length (power_matrix sp) = 129 \<and> length (frequencies sp) = 129 \<and>
       length (times_axis sp) = 18) \<and>
   (\<exists>sp. generateSpectrogram (replicate 256 (Fin 1)) 250 256 (1 / 2) = Inr sp \<and>
       length (times_axis sp) = 1)"
proof -
  have h: "length (replicate 2500 (Fin 1)) < 2 ^ 32 \<and> 256 \<le> length (replicate 2500 (Fin 1)) \<and>
           1 \<le> hopSize_of 256 (1 / 2) \<and> (0::real) < 250"
    by (simp add: hopSize_half)
  have h2: "length (replicate 256 (Fin 1)) = 256" by simp
  from spectrogram_invariants[of "replicate 2500 (Fin 1)" 256 "1 / 2" 250] h
  obtain sp where sp: "generateSpectrogram (replicate 2500 (Fin 1)) 250 256 (1 / 2) = Inr sp"
      "length (power_matrix sp) = 256 div 2 + 1" "length (frequencies sp) = 256 div 2 + 1"
      "length (times_axis sp) = (length (replicate 2500 (Fin 1)) - 256) div nat (hopSize_of 256 (1 / 2)) + 1"
    by blast
  have a: "\<exists>sp. generateSpectrogram (replicate 2500 (Fin 1)) 250 256 (1 / 2) = Inr sp \<and>
       length (power_matrix sp) = 129 \<and> length (frequencies sp) = 129 \<and>
       length (times_axis sp) = 18"
    using sp by (simp add: hopSize_half)
  from spectrogram_invariants[of "replicate 256 (Fin 1)" 256 "1 / 2" 250] h2
  have b: "\<exists>sp. generateSpectrogram (replicate 256 (Fin 1)) 250 256 (1 / 2) = Inr sp \<and>
       length (times_axis sp) = 1"
    by blast
  from a b show ?thesis by blast
qed

subsection \<open>Errors\<close>

text \<open>
  Claim C3, as the code has it. The generator raises nothing of its own. The runtime's
  RangeError stops it whenever the hop size is 0 (the only hop size below 1 for an
  overlap of at most 1) and, for a hop size of at least 1, whenever the buffer is
  shorter than \<open>windowSize - hopSize\<close>. For a hop size of at least 1 and
  \<open>windowSize - hopSize \<le> len < windowSize\<close> it returns a spectrogram with no time stamp
  and empty power rows.
\<close>

theorem spectrogram_errors:
  "(hopSize_of windowSize overlap = 0 \<longrightarrow>
      generateSpectrogram data sfreq windowSize overlap = Inl RangeError)
   \<and> (overlap \<le> 1 \<and> hopSize_of windowSize overlap < 1 \<longrightarrow> hopSize_of windowSize overlap = 0)
   \<and> (1 \<le> hopSize_of windowSize overlap \<and>
        length data + nat (hopSize_of windowSize overlap) < windowSize \<longrightarrow>
      generateSpectrogram data sfreq windowSize overlap = Inl RangeError)
   \<and> (1 \<le> hopSize_of windowSize overlap \<and> windowSize < 2 ^ 32 \<and> length data < windowSize \<and>
        windowSize \<le> length data + nat (hopSize_of windowSize overlap) \<longrightarrow>
      generateSpectrogram data sfreq windowSize overlap =
        Inr \<lparr>frequencies = map (\<lambda>i. js_div (Fin (real i * sfreq)) (Fin (real windowSize)))
                                [0..<windowSize div 2 + 1],
             times_axis = [],
             power_matrix = replicate (windowSize div 2 + 1) []\<rparr>)"
proof (intro conjI impI)
  assume "hopSize_of windowSize overlap = 0"
  then show "generateSpectrogram data sfreq windowSize overlap = Inl RangeError"
    by (rule generateSpectrogram_hop_zero)
next
  assume "overlap \<le> 1 \<and> hopSize_of windowSize overlap < 1"
  then show "hopSize_of windowSize overlap = 0"
    using hop_nonneg[of overlap windowSize] by linarith
next
  assume "1 \<le> hopSize_of windowSize overlap \<and>
        length data + nat (hopSize_of windowSize overlap) < windowSize"
  then show "generateSpectrogram data sfreq windowSize overlap = Inl RangeError"
    using generateSpectrogram_too_short by blast
next
  assume "1 \<le> hopSize_of windowSize overlap \<and> windowSize < 2 ^ 32 \<and> length data < windowSize \<and>
        windowSize \<le> length data + nat (hopSize_of windowSize overlap)"
  then show "generateSpectrogram data sfreq windowSize overlap =
        Inr \<lparr>frequencies = map (\<lambda>i. js_div (Fin (real i * sfreq)) (Fin (real windowSize)))
                                [0..<windowSize div 2 + 1],
             times_axis = [],
             power_matrix = replicate (windowSize div 2 + 1) []\<rparr>"
    using generateSpectrogram_no_window by blast
qed

theorem spectrogram_errors_witness:
  "generateSpectrogram (replicate 300 (Fin 1)) 250 256 1 = Inl RangeError \<and>
   hopSize_of 256 1 = 0 \<and>
   generateSpectrogram (replicate 100 (Fin 1)) 250 256 (1 / 2) = Inl RangeError \<and>
   times_axis (projr (generateSpectrogram (replicate 200 (Fin 1)) 250 256 (1 / 2))) = []"
proof -
  have h1: "hopSize_of 256 1 = 0" by (simp add: hopSize_of_def)
  have h2: "(1::real) \<le> 1 \<and> hopSize_of 256 1 < 1" by (simp add: hopSize_of_def)
  have h3: "1 \<le> hopSize_of 256 (1 / 2) \<and>
        length (replicate 100 (Fin 1)) + nat (hopSize_of 256 (1 / 2)) < 256"
    by (simp add: hopSize_half)
  have h4: "1 \<le> hopSize_of 256 (1 / 2) \<and> (256::nat) < 2 ^ 32 \<and> length (replicate 200 (Fin 1)) < 256 \<and>
        256 \<le> length (replicate 200 (Fin 1)) + nat (hopSize_of 256 (1 / 2))"
    by (simp add: hopSize_half)
  from spectrogram_errors[of 256 1 "replicate 300 (Fin 1)" 250] h1
  have a: "generateSpectrogram (replicate 300 (Fin 1)) 250 256 1 = Inl RangeError" by blast
  from spectrogram_errors[of 256 1 "replicate 300 (Fin 1)" 250] h2
  have b: "hopSize_of 256 1 = 0" by blast
  from spectrogram_errors[of 256 "1 / 2" "replicate 100 (Fin 1)" 250] h3
  have c: "generateSpectrogram (replicate 100 (Fin 1)) 250 256 (1 / 2) = Inl RangeError" by blast
  from spectrogram_errors[of 256 "1 / 2" "replicate 200 (Fin 1)" 250] h4
  have "generateSpectrogram (replicate 200 (Fin 1)) 250 256 (1 / 2) =
        Inr \<lparr>frequencies = map (\<lambda>i. js_div (Fin (real i * 250)) (Fin (real 256))) [0..<256 div 2 + 1],
             times_axis = [], power_matrix = replicate (256 div 2 + 1) []\<rparr>" by blast
  then have d: "times_axis (projr (generateSpectrogram (replicate 200 (Fin 1)) 250 256 (1 / 2))) = []"
    by simp
  from a b c d show ?thesis by blast
qed

text \<open>
  200 samples with window 256 and overlap 0.5: no error, a spectrogram of 129 empty
  rows. 256 samples with overlap 1.5 (hop size -128): no error either.
\<close>

theorem spectrogram_errors_counterexample:
  "\<not> isl (generateSpectrogram (replicate 200 (Fin 1)) 250 256 (1 / 2)) \<and>
   length (frequencies (projr (generateSpectrogram (replicate 200 (Fin 1)) 250 256 (1 / 2)))) = 129 \<and>
   times_axis (projr (generateSpectrogram (replicate 200 (Fin 1)) 250 256 (1 / 2))) = [] \<and>
   power_matrix (projr (generateSpectrogram (replicate 200 (Fin 1)) 250 256 (1 / 2))) = replicate 129 [] \<and>
   \<not> isl (generateSpectrogram (replicate 256 (Fin 1)) 250 256 (3 / 2))"
proof -
  have "generateSpectrogram (replicate 200 (Fin 1)) 250 256 (1 / 2) =
        Inr \<lparr>frequencies = map (\<lambda>i. js_div (Fin (real i * 250)) (Fin (real 256))) [0..<256 div 2 + 1],
             times_axis = [], power_matrix = replicate (256 div 2 + 1) []\<rparr>"
    by (rule generateSpectrogram_no_window) (simp_all add: hopSize_half)
  then have a: "\<not> isl (generateSpectrogram (replicate 200 (Fin 1)) 250 256 (1 / 2)) \<and>
   length (frequencies (projr (generateSpectrogram (replicate 200 (Fin 1)) 250 256 (1 / 2)))) = 129 \<and>
   times_axis (projr (generateSpectrogram (replicate 200 (Fin 1)) 250 256 (1 / 2))) = [] \<and>
   power_matrix (projr (generateSpectrogram (replicate 200 (Fin 1)) 250 256 (1 / 2))) = replicate 129 []"
    by simp
  have h: "hopSize_of 256 (3 / 2) = - 128" by (simp add: hopSize_of_def)
  have h0: "hopSize_of 256 (3 / 2) \<noteq> 0" by (simp add: h)
  have fb: "(2 ^ 32 - 1 < freqBins_of 256) = False" by (simp add: freqBins_of_def)
  have b: "\<not> isl (generateSpectrogram (replicate 256 (Fin 1)) 250 256 (3 / 2))"
    unfolding generateSpectrogram_hop_nonzero[OF h0] h fb by simp
  from a b show ?thesis by blast
qed

subsection \<open>Power values\<close>

lemma hann_Fin: "2 \<le> windowSize \<Longrightarrow> hann windowSize i = Fin (hann_real windowSize i)"
  by (simp add: hann_def hann_real_def js_sub_def)

lemma js_slice_inside:
  "0 \<le> start \<Longrightarrow> start + int m \<le> int (length xs) \<Longrightarrow>
   js_slice xs start (start + int m) = take m (drop (nat start) xs)"
  by (simp add: js_slice_def Let_def min_def)

lemma length_apply_hann: "length (apply_hann wd ws) = length wd"
  by (simp add: apply_hann_def)

lemma nth_apply_hann:
  "n < length wd \<Longrightarrow> apply_hann wd ws ! n = js_mul (wd ! n) (hann ws n)"
  by (simp add: apply_hann_def)

lemma window_fits:
  assumes "windowSize \<le> len" and "0 < hop" and "w < (len - windowSize) div hop + 1"
  shows "w * hop + windowSize \<le> (len::nat)"
proof -
  have "w \<le> (len - windowSize) div hop" using assms(3) by simp
  then have "w * hop \<le> (len - windowSize) div hop * hop" by simp
  also have "\<dots> \<le> len - windowSize" by (rule div_times_less_eq_dividend)
  finally show ?thesis using assms(1) by simp
qed

lemma window_at_Fin:
  assumes "2 \<le> windowSize" and "w * hop + windowSize \<le> length xs"
  shows "window_at (map Fin xs) windowSize (int hop) w
         = map Fin (map (windowed_sample xs windowSize hop w) [0..<windowSize])"
proof -
  let ?wd = "take windowSize (drop (w * hop) (map Fin xs))"
  have s: "js_slice (map Fin xs) (int w * int hop) (int w * int hop + int windowSize) = ?wd"
  proof -
    have "js_slice (map Fin xs) (int w * int hop) (int w * int hop + int windowSize)
          = take windowSize (drop (nat (int w * int hop)) (map Fin xs))"
      using assms(2) by (intro js_slice_inside) (simp_all flip: of_nat_mult of_nat_add)
    moreover have "nat (int w * int hop) = w * hop" by (simp flip: of_nat_mult)
    ultimately show ?thesis by simp
  qed
  have l: "length ?wd = windowSize" using assms(2) by simp
  have "apply_hann ?wd windowSize = map Fin (map (windowed_sample xs windowSize hop w) [0..<windowSize])"
  proof (rule nth_equalityI)
    show "length (apply_hann ?wd windowSize)
          = length (map Fin (map (windowed_sample xs windowSize hop w) [0..<windowSize]))"
      using l by (simp add: length_apply_hann)
  next
    fix n assume "n < length (apply_hann ?wd windowSize)"
    then have n: "n < windowSize" using l by (simp add: length_apply_hann)
    have "?wd ! n = Fin (xs ! (w * hop + n))" using n assms(2) by simp
    then have "apply_hann ?wd windowSize ! n = Fin (windowed_sample xs windowSize hop w n)"
      using n l by (simp add: nth_apply_hann hann_Fin[OF assms(1)] windowed_sample_def)
    then show "apply_hann ?wd windowSize ! n
               = map Fin (map (windowed_sample xs windowSize hop w) [0..<windowSize]) ! n"
      using n by simp
  qed
  then show ?thesis unfolding window_at_def Let_def s .
qed

lemma dft_fold_Fin:
  assumes "ws \<noteq> 0"
  shows "b \<le> length ys \<Longrightarrow>
     fold (\<lambda>n (re, im).
             let angle = js_div (Fin (- 2 * pi * real k * real n)) (Fin (real ws))
             in (js_add re (js_mul (map Fin ys ! n) (Math_cos angle)),
                 js_add im (js_mul (map Fin ys ! n) (Math_sin angle))))
          [0..<b] (Fin c, Fin d)
     = (Fin (c + (\<Sum>n = 0..<b. ys ! n * cos (- 2 * pi * real k * real n / real ws))),
        Fin (d + (\<Sum>n = 0..<b. ys ! n * sin (- 2 * pi * real k * real n / real ws))))"
proof (induction b)
  case 0
  then show ?case by simp
next
  case (Suc b)
  then have "b < length ys" by simp
  then show ?case using Suc assms by (simp add: Let_def add.assoc)
qed

lemma dft_bin_Fin:
  assumes "ws \<noteq> 0"
  shows "dft_bin (map Fin ys) ws k
         = (Fin (\<Sum>n = 0..<length ys. ys ! n * cos (- 2 * pi * real k * real n / real ws)),
            Fin (\<Sum>n = 0..<length ys. ys ! n * sin (- 2 * pi * real k * real n / real ws)))"
  unfolding dft_bin_def using dft_fold_Fin[OF assms, of "length ys" ys k 0 0] by simp

lemma log_power_Fin: "log_power (Fin a, Fin b) = Fin (log 10 (a\<^sup>2 + b\<^sup>2 + 1 / 10 ^ 10))"
proof -
  have "0 \<le> a * a" "0 \<le> b * b" by simp_all
  moreover have "(0::real) < 1 / 10 ^ 10" by simp
  ultimately have p: "0 < a * a + b * b + 1 / 10 ^ 10" by linarith
  then have "Math_log10 (Fin (a * a + b * b + 1 / 10 ^ 10)) = Fin (log 10 (a * a + b * b + 1 / 10 ^ 10))"
    by (simp only: Math_log10.simps) (simp add: not_less[symmetric] less_imp_neq)
  then show ?thesis by (simp add: log_power_def power2_eq_square)
qed

lemma power_entry_Fin:
  assumes "2 \<le> windowSize" and "w * hop + windowSize \<le> length xs"
  shows "log_power (dft_bin (window_at (map Fin xs) windowSize (int hop) w) windowSize k)
         = Fin (log 10 ((dft_real xs windowSize hop w k)\<^sup>2 + (dft_imag xs windowSize hop w k)\<^sup>2
                         + 1 / 10 ^ 10))"
proof -
  have w0: "windowSize \<noteq> 0" using assms(1) by simp
  have "\<And>f. (\<Sum>n = 0..<windowSize. map (windowed_sample xs windowSize hop w) [0..<windowSize] ! n * f n)
            = (\<Sum>n = 0..<windowSize. windowed_sample xs windowSize hop w n * f n)"
    by (rule sum.cong) simp_all
  then have "dft_bin (window_at (map Fin xs) windowSize (int hop) w) windowSize k
        = (Fin (dft_real xs windowSize hop w k), Fin (dft_imag xs windowSize hop w k))"
    unfolding window_at_Fin[OF assms] dft_bin_Fin[OF w0] dft_real_def dft_imag_def
    by simp
  then show ?thesis by (simp only: log_power_Fin)
qed

text \<open>
  Claim C7. For finite samples, a window of at least 2 samples that fits the buffer and a
  hop size of at least 1, the power of bin \<open>k\<close> and window \<open>w\<close> is
  \<open>log10 (real\<^sup>2 + imag\<^sup>2 + 1e-10)\<close>, where \<open>real\<close> and \<open>imag\<close> are the direct sums over the
  slice that starts at \<open>w * hopSize\<close>, each sample multiplied by its Hann factor.
\<close>

theorem spectrogram_power_values:
  assumes "length xs < 2 ^ 32" and "windowSize \<le> length xs"
    and "1 \<le> hopSize_of windowSize overlap" and "2 \<le> windowSize"
    and "k < windowSize div 2 + 1"
    and "w < (length xs - windowSize) div nat (hopSize_of windowSize overlap) + 1"
  shows "\<exists>sp. generateSpectrogram (map Fin xs) sfreq windowSize overlap = Inr sp \<and>
     power_matrix sp ! k ! w =
       Fin (log 10 ((dft_real xs windowSize (nat (hopSize_of windowSize overlap)) w k)\<^sup>2
                    + (dft_imag xs windowSize (nat (hopSize_of windowSize overlap)) w k)\<^sup>2
                    + 1 / 10 ^ 10))"
proof -
  define hop where "hop = nat (hopSize_of windowSize overlap)"
  define nW where "nW = (length xs - windowSize) div hop + 1"
  define fb where "fb = freqBins_of windowSize"
  have hi: "hopSize_of windowSize overlap = int hop" using assms(3) by (simp add: hop_def)
  have hp: "0 < hop" using assms(3) by (simp add: hop_def)
  have kf: "k < fb" using assms(5) by (simp add: fb_def freqBins_of_def)
  have wn: "w < nW" using assms(6) by (simp add: nW_def hop_def)
  have fit: "w * hop + windowSize \<le> length xs"
    using assms(2) hp wn unfolding nW_def by (rule window_fits)
  have g: "generateSpectrogram (map Fin xs) sfreq windowSize overlap =
     Inr \<lparr>frequencies = map (\<lambda>i. js_div (Fin (real i * sfreq)) (Fin (real windowSize))) [0..<fb],
          times_axis = map (\<lambda>i. js_div (Fin (real i * of_int (int hop))) (Fin sfreq)) [0..<nW],
          power_matrix = stft_loop (map Fin xs) windowSize (int hop) fb nW
                           (replicate fb (replicate nW (Fin 0)))\<rparr>"
    using spectrogram_shape[of "map Fin xs" windowSize overlap sfreq] assms(1,2,3)
    unfolding hi fb_def nW_def by simp
  have "stft_loop (map Fin xs) windowSize (int hop) fb nW (replicate fb (replicate nW (Fin 0))) ! k ! w
        = log_power (dft_bin (window_at (map Fin xs) windowSize (int hop) w) windowSize k)"
    by (rule stft_loop_entry) (use kf wn in simp_all)
  also have "\<dots> = Fin (log 10 ((dft_real xs windowSize hop w k)\<^sup>2 + (dft_imag xs windowSize hop w k)\<^sup>2
                         + 1 / 10 ^ 10))"
    using assms(4) fit by (rule power_entry_Fin)
  finally show ?thesis using g unfolding hop_def by simp
qed

theorem spectrogram_power_values_witness:
  "\<exists>sp. generateSpectrogram (map Fin [5, 2, 7]) 250 3 0 = Inr sp \<and>
        power_matrix sp ! 0 ! 0 = Fin (log 10 (4 + 1 / 10 ^ 10))"
proof -
  have h: "hopSize_of 3 0 = 3" by (simp add: hopSize_of_def)
  have a: "length [5, 2, 7::real] < 2 ^ 32" "3 \<le> length [5, 2, 7::real]" "1 \<le> hopSize_of 3 0"
    "(2::nat) \<le> 3" "(0::nat) < 3 div 2 + 1"
    "(0::nat) < (length [5, 2, 7::real] - 3) div nat (hopSize_of 3 0) + 1"
    by (simp_all add: h)
  have h0: "hann_real 3 0 = 0" unfolding hann_real_def by simp
  have h1: "hann_real 3 (Suc 0) = 1" unfolding hann_real_def by simp
  have h2: "hann_real 3 2 = 0" unfolding hann_real_def by simp
  have s: "{0..<3::nat} = {0, 1, 2}" by auto
  have r: "dft_real [5, 2, 7] 3 (nat (hopSize_of 3 0)) 0 0 = 2"
    by (simp add: dft_real_def windowed_sample_def h0 h1 h2 s)
  have i: "dft_imag [5, 2, 7] 3 (nat (hopSize_of 3 0)) 0 0 = 0"
    by (simp add: dft_imag_def)
  from spectrogram_power_values[OF a, of 250]
  show ?thesis unfolding r i by simp
qed

section \<open>Properties of the band aggregator\<close>

lemma filter_zip_snd:
  "map snd (filter (\<lambda>(x, i). Q x) (zip xs [0..<length xs])) = filter (\<lambda>i. Q (xs ! i)) [0..<length xs]"
proof (induction xs rule: rev_induct)
  case Nil
  then show ?case by simp
next
  case (snoc x xs)
  have "filter (\<lambda>i. Q ((xs @ [x]) ! i)) [0..<length xs] = filter (\<lambda>i. Q (xs ! i)) [0..<length xs]"
    by (rule filter_cong) (simp_all add: nth_append)
  then show ?case using snoc by (simp add: nth_append)
qed

lemma filter_zip_fst:
  "map fst (filter (\<lambda>(x, i). R i) (zip xs [0..<length xs])) = map ((!) xs) (filter R [0..<length xs])"
proof (induction xs rule: rev_induct)
  case Nil
  then show ?case by simp
next
  case (snoc x xs)
  have "map ((!) (xs @ [x])) (filter R [0..<length xs]) = map ((!) xs) (filter R [0..<length xs])"
    by (rule map_cong) (simp_all add: nth_append)
  then show ?case using snoc by (simp add: nth_append)
qed

lemma in_band_Fin: "(js_ge (Fin f) (Fin lo) \<and> js_le (Fin f) (Fin hi)) = (lo \<le> f \<and> f \<le> hi)"
  by (auto simp: js_ge_def js_le_def)

lemma bandIndices_Fin: "bandIndices (map Fin fr) (Fin lo) (Fin hi) = band_bins fr lo hi"
proof -
  have "bandIndices (map Fin fr) (Fin lo) (Fin hi)
        = filter (\<lambda>i. js_ge (map Fin fr ! i) (Fin lo) \<and> js_le (map Fin fr ! i) (Fin hi))
                 [0..<length (map Fin fr)]"
    unfolding bandIndices_def by (rule filter_zip_snd)
  also have "\<dots> = filter (\<lambda>i. lo \<le> fr ! i \<and> fr ! i \<le> hi) [0..<length fr]"
    by (rule filter_cong) (simp_all add: in_band_Fin)
  finally show ?thesis by (simp add: band_bins_def)
qed

lemma band_bins_bound: "i \<in> set (band_bins fr lo hi) \<Longrightarrow> i < length fr"
  by (simp add: band_bins_def)

lemma filter_member_band_bins:
  "filter (\<lambda>i. i \<in> set (band_bins fr lo hi)) [0..<length fr] = band_bins fr lo hi"
  unfolding band_bins_def by (rule filter_cong) auto

lemma bandPowers_Fin:
  assumes "length pr = length fr"
  shows "bandPowers (map Fin fr) (map (map Fin) pr) (Fin lo) (Fin hi) = map Fin (band_values fr pr lo hi)"
proof -
  let ?pw = "map (map Fin) pr"
  have l: "length ?pw = length fr" using assms by simp
  have "map fst (filter (\<lambda>(row, freqIdx). freqIdx \<in> set (band_bins fr lo hi)) (zip ?pw [0..<length ?pw]))
        = map ((!) ?pw) (filter (\<lambda>i. i \<in> set (band_bins fr lo hi)) [0..<length ?pw])"
    by (rule filter_zip_fst)
  also have "\<dots> = map ((!) ?pw) (band_bins fr lo hi)"
    unfolding l filter_member_band_bins ..
  also have "\<dots> = map (\<lambda>i. map Fin (pr ! i)) (band_bins fr lo hi)"
    by (rule map_cong) (use assms band_bins_bound in auto)
  finally have "bandPowers (map Fin fr) ?pw (Fin lo) (Fin hi)
        = concat (map (\<lambda>i. map Fin (pr ! i)) (band_bins fr lo hi))"
    unfolding bandPowers_def bandIndices_Fin by simp
  also have "\<dots> = map Fin (band_values fr pr lo hi)"
    by (simp add: band_values_def map_concat comp_def)
  finally show ?thesis .
qed

lemma getBandPower_Fin:
  assumes "length pr = length fr"
  shows "getBandPower (map Fin fr) (map (map Fin) pr) (Fin lo) (Fin hi) = band_average fr pr lo hi"
  unfolding getBandPower_def Let_def bandIndices_Fin bandPowers_Fin[OF assms] band_average_def
  by (simp add: reduce_sum_Fin)

text \<open>
  Claim C8. For a spectrogram of finite values with one power row per frequency, the
  power of a band is the arithmetic mean of all values in the rows whose frequency lies in
  \<open>[lo, hi]\<close>, and exactly 0 when no frequency lies there; the five bands are delta 0.5-4,
  theta 4-8, alpha 8-13, beta 13-30 and gamma 30-100.
\<close>

theorem band_power_mean:
  assumes "frequencies sp = map Fin fr" and "power_matrix sp = map (map Fin) pr"
    and "length pr = length fr"
  shows "getBandPower (frequencies sp) (power_matrix sp) (Fin lo) (Fin hi) = band_average fr pr lo hi
    \<and> (band_bins fr lo hi = [] \<longrightarrow>
          getBandPower (frequencies sp) (power_matrix sp) (Fin lo) (Fin hi) = Fin 0)
    \<and> (band_values fr pr lo hi \<noteq> [] \<longrightarrow>
          getBandPower (frequencies sp) (power_matrix sp) (Fin lo) (Fin hi)
            = Fin (sum_list (band_values fr pr lo hi) / real (length (band_values fr pr lo hi))))
    \<and> delta (frequencyBands sp) = band_average fr pr (1 / 2) 4
    \<and> theta (frequencyBands sp) = band_average fr pr 4 8
    \<and> alpha (frequencyBands sp) = band_average fr pr 8 13
    \<and> beta (frequencyBands sp) = band_average fr pr 13 30
    \<and> gamma (frequencyBands sp) = band_average fr pr 30 100"
proof -
  have g: "getBandPower (frequencies sp) (power_matrix sp) (Fin a) (Fin b) = band_average fr pr a b"
    for a b unfolding assms(1,2) using assms(3) by (rule getBandPower_Fin)
  have z: "band_bins fr lo hi = [] \<longrightarrow> band_average fr pr lo hi = Fin 0"
    by (simp add: band_average_def)
  have "band_values fr pr lo hi \<noteq> [] \<longrightarrow> band_bins fr lo hi \<noteq> []"
    by (auto simp: band_values_def)
  then have m: "band_values fr pr lo hi \<noteq> [] \<longrightarrow> band_average fr pr lo hi
            = Fin (sum_list (band_values fr pr lo hi) / real (length (band_values fr pr lo hi)))"
    by (simp add: band_average_def)
  show ?thesis using z m by (simp add: g frequencyBands_def)
qed

theorem band_power_mean_witness:
  "delta (frequencyBands \<lparr>frequencies = map Fin [0, 5, 10], times_axis = [Fin 0, Fin 1],
                          power_matrix = map (map Fin) [[1, 2], [3, 5], [7, 9]]\<rparr>) = Fin 0 \<and>
   theta (frequencyBands \<lparr>frequencies = map Fin [0, 5, 10], times_axis = [Fin 0, Fin 1],
                          power_matrix = map (map Fin) [[1, 2], [3, 5], [7, 9]]\<rparr>) = Fin 4 \<and>
   alpha (frequencyBands \<lparr>frequencies = map Fin [0, 5, 10], times_axis = [Fin 0, Fin 1],
                          power_matrix = map (map Fin) [[1, 2], [3, 5], [7, 9]]\<rparr>) = Fin 8 \<and>
   gamma (frequencyBands \<lparr>frequencies = map Fin [0, 5, 10], times_axis = [Fin 0, Fin 1],
                          power_matrix = map (map Fin) [[1, 2], [3, 5], [7, 9]]\<rparr>) = Fin 0"
proof -
  let ?sp = "\<lparr>frequencies = map Fin [0, 5, 10], times_axis = [Fin 0, Fin 1],
              power_matrix = map (map Fin) [[1, 2], [3, 5], [7, 9]]\<rparr>"
  have h: "frequencies ?sp = map Fin [0, 5, 10]" "power_matrix ?sp = map (map Fin) [[1, 2], [3, 5], [7, 9]]"
    "length [[1, 2], [3, 5], [7, 9::real]] = length [0, 5, 10::real]" by simp_all
  have d: "band_average [0, 5, 10] [[1, 2], [3, 5], [7, 9]] (1 / 2) 4 = Fin 0" by code_simp
  have t: "band_average [0, 5, 10] [[1, 2], [3, 5], [7, 9]] 4 8 = Fin 4" by code_simp
  have a: "band_average [0, 5, 10] [[1, 2], [3, 5], [7, 9]] 8 13 = Fin 8" by code_simp
  have g: "band_average [0, 5, 10] [[1, 2], [3, 5], [7, 9]] 30 100 = Fin 0" by code_simp
  from band_power_mean[OF h, of 4 8] show ?thesis unfolding d t a g by blast
qed

end
